theory Spec2Isabelle
  imports Main
begin

section \<open>The page as the script sees it\<close>

text \<open>
  The script \<^verbatim>\<open>src/app.js\<close> wires a static landing page. Everything it does to the
  page is an assignment to an inline style property, a class-list update, an attribute
  update, a registration (timer, animation frame, listener, observer) or a console line.
  The model keeps exactly these: DOM objects live in a store indexed by an object
  identity, closures that the script hands to the browser are first-order values naming
  the element they captured, and the browser's queues are lists in arming order.
\<close>

type_synonym elem_id = nat

text \<open>The inline style properties that the script assigns; an unset property reads \<open>''''\<close>.\<close>

record css_style =
  opacity :: string
  transform :: string
  transition :: string
  animation :: string
  animationDuration :: string
  animationName :: string

datatype event_kind = MouseEnter | MouseLeave | Focus | Blur

text \<open>The listener closures of \<^verbatim>\<open>setupHoverEffects\<close>; each acts on \<^verbatim>\<open>e.currentTarget\<close>.\<close>

datatype handler = CardHover bool | IconEnter | IconLeave

record element =
  classList :: "string list"
  style :: css_style
  src :: string
  alt :: string
  descendants :: "elem_id list"
  listeners :: "(event_kind \<times> handler) list"
  requestAnimationFrameProp :: "nat option"

text \<open>
  The closures given to \<^verbatim>\<open>setTimeout\<close> (lines 111-115 and 128-132) and the one
  given to \<^verbatim>\<open>requestAnimationFrame\<close> (lines 195-197), with the element each one
  captured.
\<close>

datatype callback = RevealCard elem_id | RevealIcon elem_id

datatype frame_callback = PulseCard elem_id

text \<open>The console lines of the modelled functions (the text after the pictograph).\<close>

datatype log_line =
    AnimationsDisabled
      \<comment> \<open>\<^verbatim>\<open>Animations disabled for accessibility\<close>\<close>
  | CardsAnimated nat
      \<comment> \<open>\<^verbatim>\<open>${linkCards.length} link cards animated with staggered timing\<close>\<close>
  | IconsAnimated nat
      \<comment> \<open>\<^verbatim>\<open>${socialIcons.length} social icons animated\<close>\<close>
  | HoverSetupComplete
      \<comment> \<open>\<^verbatim>\<open>Enhanced hover effects setup complete\<close>\<close>
  | ProfileFallbackApplied
      \<comment> \<open>\<^verbatim>\<open>Profile image fallback applied\<close>\<close>
  | DomCached bool bool nat nat bool
      \<comment> \<open>\<^verbatim>\<open>DOM elements cached:\<close> with the five summary fields\<close>

text \<open>
  \<open>enabled\<close> is \<^verbatim>\<open>App.animations.enabled\<close>; the five cache fields are the object
  \<^verbatim>\<open>Elements\<close> (\<open>None\<close> is \<^verbatim>\<open>null\<close>); \<open>timers\<close> holds the pending timeouts
  with their delay in milliseconds, \<open>frames\<close> the pending animation-frame requests,
  \<open>observed\<close> the targets of the intersection observer.
\<close>

record page =
  elems :: "elem_id \<Rightarrow> element"
  document :: "elem_id list"
  enabled :: bool
  heroSection :: "elem_id option"
  profileImage :: "elem_id option"
  linkCards :: "elem_id list option"
  socialIcons :: "elem_id list option"
  footer :: "elem_id option"
  timers :: "(nat \<times> callback) list"
  frames :: "frame_callback list"
  nextFrameId :: nat
  observed :: "elem_id list"
  console :: "log_line list"

datatype js_error = TypeError

subsection \<open>Browser primitives\<close>

definition update_style :: "elem_id \<Rightarrow> (css_style \<Rightarrow> css_style) \<Rightarrow> page \<Rightarrow> page" where
  "update_style e f p =
     p\<lparr>elems := (elems p)(e := (elems p e)\<lparr>style := f (style (elems p e))\<rparr>)\<rparr>"

definition console_log :: "log_line \<Rightarrow> page \<Rightarrow> page" where
  "console_log l p = p\<lparr>console := console p @ [l]\<rparr>"

definition setTimeout :: "callback \<Rightarrow> nat \<Rightarrow> page \<Rightarrow> page" where
  "setTimeout cb delay p = p\<lparr>timers := timers p @ [(delay, cb)]\<rparr>"

definition truthy :: "'a option \<Rightarrow> bool" where
  "truthy v = (v \<noteq> None)"

text \<open>Reading \<^verbatim>\<open>.length\<close> or calling \<^verbatim>\<open>.forEach\<close> on \<^verbatim>\<open>null\<close> throws.\<close>

definition nodeList_length :: "elem_id list option \<Rightarrow> js_error + nat" where
  "nodeList_length nl = (case nl of None \<Rightarrow> Inl TypeError | Some xs \<Rightarrow> Inr (length xs))"

fun forEach_from :: "(elem_id \<Rightarrow> nat \<Rightarrow> page \<Rightarrow> page) \<Rightarrow> elem_id list \<Rightarrow> nat \<Rightarrow> page \<Rightarrow> page" where
  "forEach_from f [] i p = p"
| "forEach_from f (x # xs) i p = forEach_from f xs (Suc i) (f x i p)"

definition nodeList_forEach ::
  "elem_id list option \<Rightarrow> (elem_id \<Rightarrow> nat \<Rightarrow> page \<Rightarrow> page) \<Rightarrow> page \<Rightarrow> js_error + page" where
  "nodeList_forEach nl f p =
     (case nl of None \<Rightarrow> Inl TypeError | Some xs \<Rightarrow> Inr (forEach_from f xs 0 p))"

subsection \<open>\<^verbatim>\<open>AnimationController.setupPageLoadAnimations\<close> (lines 99-136)\<close>

definition cardInitial :: "elem_id \<Rightarrow> nat \<Rightarrow> page \<Rightarrow> page" where
  "cardInitial el index p =
     setTimeout (RevealCard el) (800 + index * 150)
       (update_style el (\<lambda>s. s\<lparr>opacity := ''0'', transform := ''translateY(30px)''\<rparr>) p)"

definition iconInitial :: "elem_id \<Rightarrow> nat \<Rightarrow> page \<Rightarrow> page" where
  "iconInitial el index p =
     setTimeout (RevealIcon el) (1400 + index * 100)
       (update_style el
          (\<lambda>s. s\<lparr>opacity := ''0'', transform := ''translateY(20px) scale(0.8)''\<rparr>) p)"

definition animateLinkCards :: "page \<Rightarrow> js_error + page" where
  "animateLinkCards p =
     (if truthy (linkCards p) then
        (case nodeList_length (linkCards p) of
           Inl err \<Rightarrow> Inl err
         | Inr n \<Rightarrow>
             if 0 < n then
               (case nodeList_forEach (linkCards p) cardInitial p of
                  Inl err \<Rightarrow> Inl err
                | Inr p' \<Rightarrow> Inr (console_log (CardsAnimated n) p'))
             else Inr p)
      else Inr p)"

definition animateSocialIcons :: "page \<Rightarrow> js_error + page" where
  "animateSocialIcons p =
     (if truthy (socialIcons p) then
        (case nodeList_length (socialIcons p) of
           Inl err \<Rightarrow> Inl err
         | Inr n \<Rightarrow>
             if 0 < n then
               (case nodeList_forEach (socialIcons p) iconInitial p of
                  Inl err \<Rightarrow> Inl err
                | Inr p' \<Rightarrow> Inr (console_log (IconsAnimated n) p'))
             else Inr p)
      else Inr p)"

definition setupPageLoadAnimations :: "page \<Rightarrow> js_error + page" where
  "setupPageLoadAnimations p =
     (case animateLinkCards p of Inl err \<Rightarrow> Inl err | Inr p' \<Rightarrow> animateSocialIcons p')"

subsection \<open>The timer and animation-frame closures\<close>

text \<open>Lines 112-114 and 129-131, then line 196.\<close>

fun run_callback :: "callback \<Rightarrow> page \<Rightarrow> page" where
  "run_callback (RevealCard el) p =
     update_style el
       (\<lambda>s. s\<lparr>transition := ''all 0.6s cubic-bezier(0.4, 0, 0.2, 1)'',
               opacity := ''1'', transform := ''translateY(0)''\<rparr>) p"
| "run_callback (RevealIcon el) p =
     update_style el
       (\<lambda>s. s\<lparr>transition := ''all 0.5s cubic-bezier(0.4, 0, 0.2, 1)'',
               opacity := ''1'', transform := ''translateY(0) scale(1)''\<rparr>) p"

fun run_frame :: "frame_callback \<Rightarrow> page \<Rightarrow> page" where
  "run_frame (PulseCard el) p =
     update_style el (\<lambda>s. s\<lparr>animationName := ''subtle-pulse''\<rparr>) p"

subsection \<open>Selector queries\<close>

text \<open>
  Every selector the modelled functions use is a class selector or a comma-separated list
  of class selectors, so a selector is the list of its class names. A query walks the
  given elements in document order.
\<close>

definition matches :: "page \<Rightarrow> string list \<Rightarrow> elem_id \<Rightarrow> bool" where
  "matches p sel e = (\<exists>c \<in> set sel. c \<in> set (classList (elems p e)))"

definition querySelectorAll :: "page \<Rightarrow> string list \<Rightarrow> elem_id list" where
  "querySelectorAll p sel = filter (matches p sel) (document p)"

definition querySelector :: "page \<Rightarrow> string list \<Rightarrow> elem_id option" where
  "querySelector p sel = find (matches p sel) (document p)"

definition querySelector_in :: "page \<Rightarrow> elem_id \<Rightarrow> string list \<Rightarrow> elem_id option" where
  "querySelector_in p e sel = find (matches p sel) (descendants (elems p e))"

subsection \<open>\<^verbatim>\<open>cacheDOMElements\<close> (lines 445-459)\<close>

definition cacheDOMElements :: "page \<Rightarrow> page" where
  "cacheDOMElements p =
     (let p' = p\<lparr>heroSection := querySelector p [''hero-section''],
                  profileImage := querySelector p [''profile-image''],
                  linkCards := Some (querySelectorAll p [''link-card'']),
                  socialIcons := Some (querySelectorAll p [''social-icon'']),
                  footer := querySelector p [''footer'']\<rparr>
      in console_log
           (DomCached (truthy (heroSection p')) (truthy (profileImage p'))
              (length (querySelectorAll p [''link-card'']))
              (length (querySelectorAll p [''social-icon'']))
              (truthy (footer p'))) p')"

subsection \<open>\<^verbatim>\<open>AnimationController.disableAnimations\<close> (lines 88-96)\<close>

definition disableOne :: "elem_id \<Rightarrow> nat \<Rightarrow> page \<Rightarrow> page" where
  "disableOne el index p =
     update_style el
       (\<lambda>s. s\<lparr>opacity := ''1'', transform := ''translateY(0)'', animation := ''none''\<rparr>) p"

definition disableAnimations :: "page \<Rightarrow> js_error + page" where
  "disableAnimations p =
     (case nodeList_forEach
             (Some (querySelectorAll p
                [''link-card'', ''social-icon'', ''hero-section'', ''social-section'', ''footer'']))
             disableOne p of
        Inl err \<Rightarrow> Inl err
      | Inr p' \<Rightarrow> Inr (console_log AnimationsDisabled p'))"

subsection \<open>\<^verbatim>\<open>AnimationController.setupHoverEffects\<close> and \<^verbatim>\<open>handleCardHover\<close> (lines 139-208)\<close>

definition addEventListener :: "event_kind \<Rightarrow> handler \<Rightarrow> elem_id \<Rightarrow> page \<Rightarrow> page" where
  "addEventListener k h e p =
     p\<lparr>elems := (elems p)(e := (elems p e)\<lparr>listeners := listeners (elems p e) @ [(k, h)]\<rparr>)\<rparr>"

definition cardListeners :: "elem_id \<Rightarrow> nat \<Rightarrow> page \<Rightarrow> page" where
  "cardListeners el index p =
     addEventListener Blur (CardHover False) el
       (addEventListener Focus (CardHover True) el
          (addEventListener MouseLeave (CardHover False) el
             (addEventListener MouseEnter (CardHover True) el p)))"

definition iconListeners :: "elem_id \<Rightarrow> nat \<Rightarrow> page \<Rightarrow> page" where
  "iconListeners el index p =
     addEventListener MouseLeave IconLeave el (addEventListener MouseEnter IconEnter el p)"

definition setupHoverEffects :: "page \<Rightarrow> js_error + page" where
  "setupHoverEffects p =
     (case (if truthy (linkCards p) then
              (case nodeList_forEach (linkCards p) cardListeners p of
                 Inl err \<Rightarrow> Inl err
               | Inr p' \<Rightarrow> Inr (console_log HoverSetupComplete p'))
            else Inr p) of
        Inl err \<Rightarrow> Inl err
      | Inr p1 \<Rightarrow>
          if truthy (socialIcons p1) then nodeList_forEach (socialIcons p1) iconListeners p1
          else Inr p1)"

text \<open>
  \<^verbatim>\<open>requestAnimationFrame\<close> queues the closure and returns a request handle, which
  line 195 stores in a property of the card object.
\<close>

definition requestAnimationFrame :: "frame_callback \<Rightarrow> page \<Rightarrow> nat \<times> page" where
  "requestAnimationFrame cb p =
     (nextFrameId p, p\<lparr>frames := frames p @ [cb], nextFrameId := Suc (nextFrameId p)\<rparr>)"

definition set_transform_if :: "elem_id option \<Rightarrow> string \<Rightarrow> page \<Rightarrow> page" where
  "set_transform_if target v p =
     (case target of None \<Rightarrow> p | Some e \<Rightarrow> update_style e (\<lambda>s. s\<lparr>transform := v\<rparr>) p)"

definition handleCardHover :: "elem_id \<Rightarrow> bool \<Rightarrow> page \<Rightarrow> page" where
  "handleCardHover el isEntering p =
     (let arrow = querySelector_in p el [''link-arrow''];
          logo = querySelector_in p el [''logo-container'']
      in if isEntering then
           (let p1 = set_transform_if arrow ''translateX(6px)'' p;
                p2 = set_transform_if logo ''scale(1.15)'' p1;
                p3 = update_style el (\<lambda>s. s\<lparr>animationDuration := ''2s''\<rparr>) p2;
                p4 = update_style el (\<lambda>s. s\<lparr>animationName := ''none''\<rparr>) p3;
                (h, p5) = requestAnimationFrame (PulseCard el) p4
            in p5\<lparr>elems := (elems p5)(el := (elems p5 el)\<lparr>requestAnimationFrameProp := Some h\<rparr>)\<rparr>)
         else
           (let p1 = set_transform_if arrow ''translateX(0)'' p;
                p2 = set_transform_if logo ''scale(1)'' p1
            in update_style el (\<lambda>s. s\<lparr>animationName := ''none''\<rparr>) p2))"

fun run_handler :: "handler \<Rightarrow> elem_id \<Rightarrow> page \<Rightarrow> page" where
  "run_handler (CardHover isEntering) currentTarget p = handleCardHover currentTarget isEntering p"
| "run_handler IconEnter currentTarget p =
     update_style currentTarget (\<lambda>s. s\<lparr>transform := ''translateY(-4px) scale(1.1)''\<rparr>) p"
| "run_handler IconLeave currentTarget p =
     update_style currentTarget (\<lambda>s. s\<lparr>transform := ''translateY(0) scale(1)''\<rparr>) p"

subsection \<open>\<^verbatim>\<open>AnimationController.setupScrollAnimations\<close> (lines 211-230)\<close>

text \<open>
  An observer entry as the callback reads it. Whether an entry intersects is decided by
  the browser from the threshold and the root margin of line 212-215: it is an input here.
\<close>

record entry =
  isIntersecting :: bool
  target :: elem_id

text \<open>\<^verbatim>\<open>classList.add\<close> appends each token that the list does not hold yet.\<close>

fun classList_add :: "string list \<Rightarrow> string list \<Rightarrow> string list" where
  "classList_add cl [] = cl"
| "classList_add cl (t # ts) = classList_add (if t \<in> set cl then cl else cl @ [t]) ts"

definition observerEntry :: "entry \<Rightarrow> page \<Rightarrow> page" where
  "observerEntry en p =
     (if isIntersecting en \<and> ''animated'' \<notin> set (classList (elems p (target en))) then
        p\<lparr>elems := (elems p)(target en := (elems p (target en))
            \<lparr>classList := classList_add (classList (elems p (target en)))
                            [''fade-in'', ''animated'']\<rparr>)\<rparr>
      else p)"

fun observerCallback :: "entry list \<Rightarrow> page \<Rightarrow> page" where
  "observerCallback [] p = p"
| "observerCallback (en # ens) p = observerCallback ens (observerEntry en p)"

text \<open>\<^verbatim>\<open>observer.observe(null)\<close> throws; observing an element twice has no effect.\<close>

definition observe :: "elem_id option \<Rightarrow> page \<Rightarrow> js_error + page" where
  "observe t p =
     (case t of
        None \<Rightarrow> Inl TypeError
      | Some e \<Rightarrow> Inr (if e \<in> set (observed p) then p else p\<lparr>observed := observed p @ [e]\<rparr>))"

definition setupScrollAnimations :: "page \<Rightarrow> js_error + page" where
  "setupScrollAnimations p = (if truthy (footer p) then observe (footer p) p else Inr p)"

subsection \<open>\<^verbatim>\<open>AnimationController.init\<close> (lines 76-85)\<close>

definition init :: "page \<Rightarrow> js_error + page" where
  "init p =
     (if \<not> enabled p then disableAnimations p
      else
        (case setupPageLoadAnimations p of
           Inl err \<Rightarrow> Inl err
         | Inr p1 \<Rightarrow>
             (case setupHoverEffects p1 of
                Inl err \<Rightarrow> Inl err
              | Inr p2 \<Rightarrow> setupScrollAnimations p2)))"

subsection \<open>\<^verbatim>\<open>ErrorHandler.handleImageError\<close> (lines 288-295)\<close>

definition handleImageError :: "elem_id \<Rightarrow> page \<Rightarrow> page" where
  "handleImageError img p =
     (if ''profile-image'' \<in> set (classList (elems p img)) then
        console_log ProfileFallbackApplied
          (p\<lparr>elems := (elems p)(img := (elems p img)
              \<lparr>src := ''https://ui-avatars.com/api/?name=Yaswanth+Reddy+Arumulla&size=400&background=4F46E5&color=ffffff&font-size=0.33&bold=true&format=svg'',
               alt := ''Yaswanth Reddy Arumulla - DevOps Engineer (Generated Avatar)''\<rparr>)\<rparr>)
      else p)"

subsection \<open>What the browser does after the script has returned\<close>

text \<open>
  The script runs to completion before any callback runs. Afterwards the browser
  delivers, one at a time: a pending timeout (which is then gone), a pending animation
  frame (likewise), a mouse or focus event to the listeners registered on its element in
  registration order, or a batch of entries for observed targets. Timeouts may fire in any
  order here, which covers the browser's order by delay. These are all the callbacks of
  the script that assign a style property or a class. The other listeners of the file
  write to the console and to their own counters, the image error listener also to the
  source and alternative text of its image, and the keyboard listeners dispatch a click
  or a focus event.
\<close>

datatype event =
    TimerFires nat
  | FrameFires nat
  | Dispatch event_kind elem_id
  | Intersects "entry list"

fun run_listeners :: "(event_kind \<times> handler) list \<Rightarrow> event_kind \<Rightarrow> elem_id \<Rightarrow> page \<Rightarrow> page" where
  "run_listeners [] k e p = p"
| "run_listeners ((k', h) # ls) k e p =
     run_listeners ls k e (if k' = k then run_handler h e p else p)"

fun step :: "event \<Rightarrow> page \<Rightarrow> page" where
  "step (TimerFires k) p =
     (if k < length (timers p) then
        run_callback (snd (timers p ! k)) (p\<lparr>timers := take k (timers p) @ drop (Suc k) (timers p)\<rparr>)
      else p)"
| "step (FrameFires k) p =
     (if k < length (frames p) then
        run_frame (frames p ! k) (p\<lparr>frames := take k (frames p) @ drop (Suc k) (frames p)\<rparr>)
      else p)"
| "step (Dispatch k e) p = run_listeners (listeners (elems p e)) k e p"
| "step (Intersects ens) p =
     observerCallback (filter (\<lambda>en. target en \<in> set (observed p)) ens) p"

fun run_events :: "event list \<Rightarrow> page \<Rightarrow> page" where
  "run_events [] p = p"
| "run_events (ev # evs) p = run_events evs (step ev p)"

section \<open>Vocabulary for the statements\<close>

text \<open>
  The cached node lists read as plain lists (\<^verbatim>\<open>null\<close> holds no element), the two
  hidden states as functions on an element, and the timeouts a group arms as a list.
\<close>

definition nodeList_items :: "elem_id list option \<Rightarrow> elem_id list" where
  "nodeList_items nl = (case nl of None \<Rightarrow> [] | Some xs \<Rightarrow> xs)"

definition hide_card :: "element \<Rightarrow> element" where
  "hide_card el = el\<lparr>style := (style el)\<lparr>opacity := ''0'', transform := ''translateY(30px)''\<rparr>\<rparr>"

definition hide_icon :: "element \<Rightarrow> element" where
  "hide_icon el = el\<lparr>style := (style el)\<lparr>opacity := ''0'', transform := ''translateY(20px) scale(0.8)''\<rparr>\<rparr>"

definition map_on :: "elem_id list \<Rightarrow> (element \<Rightarrow> element) \<Rightarrow> (elem_id \<Rightarrow> element) \<Rightarrow> elem_id \<Rightarrow> element" where
  "map_on xs f st = (\<lambda>e. if e \<in> set xs then f (st e) else st e)"

definition card_timers :: "nat \<Rightarrow> elem_id list \<Rightarrow> (nat \<times> callback) list" where
  "card_timers i xs = map (\<lambda>(j, x). (800 + j * 150, RevealCard x)) (enumerate i xs)"

definition icon_timers :: "nat \<Rightarrow> elem_id list \<Rightarrow> (nat \<times> callback) list" where
  "icon_timers i xs = map (\<lambda>(j, x). (1400 + j * 100, RevealIcon x)) (enumerate i xs)"

definition group_log :: "(nat \<Rightarrow> log_line) \<Rightarrow> elem_id list \<Rightarrow> log_line list" where
  "group_log mk xs = (if xs = [] then [] else [mk (length xs)])"

text \<open>The visible state that \<^verbatim>\<open>disableAnimations\<close> assigns.\<close>

definition show_element :: "element \<Rightarrow> element" where
  "show_element el =
     el\<lparr>style := (style el)\<lparr>opacity := ''1'', transform := ''translateY(0)'', animation := ''none''\<rparr>\<rparr>"

text \<open>
  Two relations between a page and a later page, for the steps that leave the reveal
  state alone: the first keeps every style and class list and every queue, the second
  keeps the pending timeouts and each element's opacity and transition.
\<close>

definition same_styles :: "page \<Rightarrow> page \<Rightarrow> bool" where
  "same_styles p q \<longleftrightarrow>
     timers q = timers p \<and> frames q = frames p \<and> observed q = observed p \<and>
     linkCards q = linkCards p \<and> socialIcons q = socialIcons p \<and> footer q = footer p \<and>
     document q = document p \<and> enabled q = enabled p \<and>
     (\<forall>e. style (elems q e) = style (elems p e) \<and> classList (elems q e) = classList (elems p e))"

definition keeps_reveal_state :: "page \<Rightarrow> page \<Rightarrow> bool" where
  "keeps_reveal_state p q \<longleftrightarrow>
     timers q = timers p \<and>
     (\<forall>e. opacity (style (elems q e)) = opacity (style (elems p e)) \<and>
          transition (style (elems q e)) = transition (style (elems p e)))"

text \<open>A pending timeout is a reveal of \<open>e\<close> when its closure captured \<open>e\<close>.\<close>

definition reveals :: "elem_id \<Rightarrow> nat \<times> callback \<Rightarrow> bool" where
  "reveals e t = (snd t = RevealCard e \<or> snd t = RevealIcon e)"

text \<open>
  The bookkeeping of one target: while its opacity is \<open>0\<close> exactly one reveal of it is
  pending, and otherwise none is.
\<close>

definition pending_ok :: "elem_id \<Rightarrow> page \<Rightarrow> bool" where
  "pending_ok e q \<longleftrightarrow>
     length (filter (reveals e) (timers q)) =
       (if opacity (style (elems q e)) = ''0'' then 1 else 0)"

text \<open>
  A small page for concrete checks: a hero section, a profile image, three link cards
  (the first with an arrow and a logo inside), two social icons and a footer.
\<close>

definition blank_style :: css_style where
  "blank_style = \<lparr>opacity = [], transform = [], transition = [], animation = [],
                   animationDuration = [], animationName = []\<rparr>"

definition sample_elems :: "elem_id \<Rightarrow> element" where
  "sample_elems e =
     \<lparr>classList =
        (if e = 0 then [''hero-section''] else if e = 1 then [''profile-image'']
         else if e = 2 \<or> e = 3 \<or> e = 4 then [''link-card'']
         else if e = 5 \<or> e = 6 then [''social-icon'']
         else if e = 7 then [''footer''] else if e = 8 then [''link-arrow'']
         else if e = 9 then [''logo-container''] else []),
      style = blank_style,
      src = (if e = 1 then ''profile.jpg'' else []),
      alt = [],
      descendants = (if e = 2 then [8, 9] else []),
      listeners = [],
      requestAnimationFrameProp = None\<rparr>"

definition sample_page :: page where
  "sample_page =
     \<lparr>elems = sample_elems, document = [0, 1, 2, 8, 9, 3, 4, 5, 6, 7], enabled = True,
      heroSection = Some 0, profileImage = Some 1, linkCards = Some [2, 3, 4],
      socialIcons = Some [5, 6], footer = Some 7, timers = [], frames = [],
      nextFrameId = 1, observed = [], console = []\<rparr>"

section \<open>The page-load sequence in closed form\<close>

lemma map_on_Nil: "map_on [] f st = st"
  by (simp add: map_on_def)

lemma card_timers_Nil: "card_timers i [] = []"
  by (simp add: card_timers_def)

lemma icon_timers_Nil: "icon_timers i [] = []"
  by (simp add: icon_timers_def)

lemma cardInitial_eq:
  "cardInitial x i p = p\<lparr>elems := (elems p)(x := hide_card (elems p x)),
                          timers := timers p @ [(800 + i * 150, RevealCard x)]\<rparr>"
  by (simp add: cardInitial_def setTimeout_def update_style_def hide_card_def)

lemma iconInitial_eq:
  "iconInitial x i p = p\<lparr>elems := (elems p)(x := hide_icon (elems p x)),
                          timers := timers p @ [(1400 + i * 100, RevealIcon x)]\<rparr>"
  by (simp add: iconInitial_def setTimeout_def update_style_def hide_icon_def)

lemma hide_card_idem: "hide_card (hide_card el) = hide_card el"
  by (simp add: hide_card_def)

lemma hide_icon_idem: "hide_icon (hide_icon el) = hide_icon el"
  by (simp add: hide_icon_def)

lemma map_on_upd:
  assumes "\<And>el. f (f el) = f el"
  shows "map_on xs f (st(x := f (st x))) = map_on (x # xs) f st"
  by (auto simp: map_on_def fun_eq_iff assms)

lemma forEach_cardInitial:
  "forEach_from cardInitial xs i p =
     p\<lparr>elems := map_on xs hide_card (elems p), timers := timers p @ card_timers i xs\<rparr>"
proof (induction xs arbitrary: i p)
  case Nil
  show ?case by (simp add: card_timers_Nil map_on_Nil)
next
  case (Cons x xs)
  have "forEach_from cardInitial (x # xs) i p = forEach_from cardInitial xs (Suc i) (cardInitial x i p)"
    by simp
  also have "\<dots> = (cardInitial x i p)
      \<lparr>elems := map_on xs hide_card (elems (cardInitial x i p)),
        timers := timers (cardInitial x i p) @ card_timers (Suc i) xs\<rparr>"
    by (rule Cons.IH)
  also have "\<dots> = p\<lparr>elems := map_on (x # xs) hide_card (elems p),
        timers := timers p @ card_timers i (x # xs)\<rparr>"
    by (simp add: cardInitial_eq map_on_upd hide_card_idem card_timers_def)
  finally show ?case .
qed

lemma forEach_iconInitial:
  "forEach_from iconInitial xs i p =
     p\<lparr>elems := map_on xs hide_icon (elems p), timers := timers p @ icon_timers i xs\<rparr>"
proof (induction xs arbitrary: i p)
  case Nil
  show ?case by (simp add: icon_timers_Nil map_on_Nil)
next
  case (Cons x xs)
  have "forEach_from iconInitial (x # xs) i p = forEach_from iconInitial xs (Suc i) (iconInitial x i p)"
    by simp
  also have "\<dots> = (iconInitial x i p)
      \<lparr>elems := map_on xs hide_icon (elems (iconInitial x i p)),
        timers := timers (iconInitial x i p) @ icon_timers (Suc i) xs\<rparr>"
    by (rule Cons.IH)
  also have "\<dots> = p\<lparr>elems := map_on (x # xs) hide_icon (elems p),
        timers := timers p @ icon_timers i (x # xs)\<rparr>"
    by (simp add: iconInitial_eq map_on_upd hide_icon_idem icon_timers_def)
  finally show ?case .
qed

lemma animateLinkCards_eq:
  "animateLinkCards p =
     Inr (if nodeList_items (linkCards p) = [] then p
          else console_log (CardsAnimated (length (nodeList_items (linkCards p))))
                 (forEach_from cardInitial (nodeList_items (linkCards p)) 0 p))"
  by (cases "linkCards p")
     (simp_all add: animateLinkCards_def truthy_def nodeList_length_def nodeList_forEach_def
        nodeList_items_def)

lemma animateSocialIcons_eq:
  "animateSocialIcons p =
     Inr (if nodeList_items (socialIcons p) = [] then p
          else console_log (IconsAnimated (length (nodeList_items (socialIcons p))))
                 (forEach_from iconInitial (nodeList_items (socialIcons p)) 0 p))"
  by (cases "socialIcons p")
     (simp_all add: animateSocialIcons_def truthy_def nodeList_length_def nodeList_forEach_def
        nodeList_items_def)

lemma animateLinkCards_page:
  "animateLinkCards p =
     Inr (p\<lparr>elems := map_on (nodeList_items (linkCards p)) hide_card (elems p),
            timers := timers p @ card_timers 0 (nodeList_items (linkCards p)),
            console := console p @ group_log CardsAnimated (nodeList_items (linkCards p))\<rparr>)"
  by (simp add: animateLinkCards_eq forEach_cardInitial console_log_def group_log_def
      map_on_Nil card_timers_Nil)

lemma animateSocialIcons_page:
  "animateSocialIcons p =
     Inr (p\<lparr>elems := map_on (nodeList_items (socialIcons p)) hide_icon (elems p),
            timers := timers p @ icon_timers 0 (nodeList_items (socialIcons p)),
            console := console p @ group_log IconsAnimated (nodeList_items (socialIcons p))\<rparr>)"
  by (simp add: animateSocialIcons_eq forEach_iconInitial console_log_def group_log_def
      map_on_Nil icon_timers_Nil)

lemma setupPageLoadAnimations_eq:
  "setupPageLoadAnimations p =
     Inr (p\<lparr>elems := map_on (nodeList_items (socialIcons p)) hide_icon
                       (map_on (nodeList_items (linkCards p)) hide_card (elems p)),
            timers := timers p @ card_timers 0 (nodeList_items (linkCards p))
                        @ icon_timers 0 (nodeList_items (socialIcons p)),
            console := console p
               @ group_log CardsAnimated (nodeList_items (linkCards p))
               @ group_log IconsAnimated (nodeList_items (socialIcons p))\<rparr>)"
  by (simp add: setupPageLoadAnimations_def animateLinkCards_page animateSocialIcons_page)

lemma card_timers_upt:
  "card_timers 0 xs = map (\<lambda>i. (800 + i * 150, RevealCard (xs ! i))) [0..<length xs]"
  by (rule nth_equalityI) (simp_all add: card_timers_def nth_enumerate_eq)

lemma icon_timers_upt:
  "icon_timers 0 xs = map (\<lambda>i. (1400 + i * 100, RevealIcon (xs ! i))) [0..<length xs]"
  by (rule nth_equalityI) (simp_all add: icon_timers_def nth_enumerate_eq)

lemma upt_three: "[0..<3] = [0, 1, 2::nat]"
  by (simp add: upt_conv_Cons)

lemma upt_two: "[0..<2] = [0, 1::nat]"
  by (simp add: upt_conv_Cons)

lemma setup_result:
  obtains p' where "setupPageLoadAnimations p = Inr p'"
    and "elems p' = map_on (nodeList_items (socialIcons p)) hide_icon
                       (map_on (nodeList_items (linkCards p)) hide_card (elems p))"
    and "timers p' = timers p @ card_timers 0 (nodeList_items (linkCards p))
                        @ icon_timers 0 (nodeList_items (socialIcons p))"
    and "console p' = console p
               @ group_log CardsAnimated (nodeList_items (linkCards p))
               @ group_log IconsAnimated (nodeList_items (socialIcons p))"
    and "document p' = document p" and "enabled p' = enabled p"
    and "linkCards p' = linkCards p" and "socialIcons p' = socialIcons p"
    and "footer p' = footer p" and "frames p' = frames p" and "observed p' = observed p"
proof -
  let ?p' = "p\<lparr>elems := map_on (nodeList_items (socialIcons p)) hide_icon
                       (map_on (nodeList_items (linkCards p)) hide_card (elems p)),
            timers := timers p @ card_timers 0 (nodeList_items (linkCards p))
                        @ icon_timers 0 (nodeList_items (socialIcons p)),
            console := console p
               @ group_log CardsAnimated (nodeList_items (linkCards p))
               @ group_log IconsAnimated (nodeList_items (socialIcons p))\<rparr>"
  have "setupPageLoadAnimations p = Inr ?p'"
    by (rule setupPageLoadAnimations_eq)
  then show thesis
    by (rule that) simp_all
qed

section \<open>Staggered delays\<close>

text \<open>
  Claim C1. With the cached card list \<open>cards\<close> and icon list \<open>icons\<close>,
  \<^verbatim>\<open>setupPageLoadAnimations\<close> returns normally and appends to the pending timeouts, in
  this order, one timeout per card with delay \<open>800 + i * 150\<close> ms for the card at index
  \<open>i\<close>, then one per icon with delay \<open>1400 + i * 100\<close> ms for the icon at index
  \<open>i\<close>; each timeout runs the reveal of its own element. In particular three cards are
  armed at 800, 950 and 1100 ms and two icons at 1400 and 1500 ms.
\<close>

theorem reveal_delay_formula:
  assumes "linkCards p = Some cards" and "socialIcons p = Some icons"
  shows "\<exists>p'. setupPageLoadAnimations p = Inr p' \<and>
           timers p' = timers p
             @ map (\<lambda>i. (800 + i * 150, RevealCard (cards ! i))) [0..<length cards]
             @ map (\<lambda>i. (1400 + i * 100, RevealIcon (icons ! i))) [0..<length icons] \<and>
           (length cards = 3 \<longrightarrow>
              map fst (take 3 (drop (length (timers p)) (timers p'))) = [800, 950, 1100]) \<and>
           (length icons = 2 \<longrightarrow>
              map fst (drop (length (timers p) + length cards) (timers p')) = [1400, 1500])"
proof -
  obtain p' where run: "setupPageLoadAnimations p = Inr p'"
    and t0: "timers p' = timers p @ card_timers 0 (nodeList_items (linkCards p))
                        @ icon_timers 0 (nodeList_items (socialIcons p))"
    by (rule setup_result)
  have tm: "timers p' = timers p
             @ map (\<lambda>i. (800 + i * 150, RevealCard (cards ! i))) [0..<length cards]
             @ map (\<lambda>i. (1400 + i * 100, RevealIcon (icons ! i))) [0..<length icons]"
    by (simp add: t0 assms nodeList_items_def card_timers_upt icon_timers_upt)
  have c3: "map fst (take 3 (drop (length (timers p)) (timers p'))) = [800, 950, 1100]"
    if "length cards = 3"
    by (simp add: tm that upt_three)
  have i2: "map fst (drop (length (timers p) + length cards) (timers p')) = [1400, 1500]"
    if "length icons = 2"
    by (simp add: tm that upt_two)
  show ?thesis
  proof (intro exI conjI impI)
    show "setupPageLoadAnimations p = Inr p'" by (rule run)
    show "timers p' = timers p
             @ map (\<lambda>i. (800 + i * 150, RevealCard (cards ! i))) [0..<length cards]
             @ map (\<lambda>i. (1400 + i * 100, RevealIcon (icons ! i))) [0..<length icons]"
      by (rule tm)
    show "map fst (take 3 (drop (length (timers p)) (timers p'))) = [800, 950, 1100]"
      if "length cards = 3" using that by (rule c3)
    show "map fst (drop (length (timers p) + length cards) (timers p')) = [1400, 1500]"
      if "length icons = 2" using that by (rule i2)
  qed
qed

theorem reveal_delay_formula_witness:
  "\<exists>p'. setupPageLoadAnimations sample_page = Inr p' \<and>
     timers p' = [(800, RevealCard 2), (950, RevealCard 3), (1100, RevealCard 4),
                  (1400, RevealIcon 5), (1500, RevealIcon 6)]"
proof -
  have h1: "linkCards sample_page = Some [2, 3, 4]"
    and h2: "socialIcons sample_page = Some [5, 6]"
    by (simp_all add: sample_page_def)
  from reveal_delay_formula [OF h1 h2] obtain p'
    where run: "setupPageLoadAnimations sample_page = Inr p'"
      and tm: "timers p' = timers sample_page
             @ map (\<lambda>i. (800 + i * 150, RevealCard ([2, 3, 4] ! i))) [0..<length [2, 3, 4::nat]]
             @ map (\<lambda>i. (1400 + i * 100, RevealIcon ([5, 6] ! i))) [0..<length [5, 6::nat]]"
    by (elim exE conjE)
  have "timers p' = [(800, RevealCard 2), (950, RevealCard 3), (1100, RevealCard 4),
                  (1400, RevealIcon 5), (1500, RevealIcon 6)]"
    unfolding tm by (simp add: sample_page_def upt_conv_Cons)
  with run show ?thesis by (intro exI conjI)
qed

section \<open>Count and order of the armed timeouts\<close>

lemma length_card_timers: "length (card_timers i xs) = length xs"
  by (simp add: card_timers_def)

lemma length_icon_timers: "length (icon_timers i xs) = length xs"
  by (simp add: icon_timers_def)

lemma snd_card_timers: "map snd (card_timers 0 xs) = map RevealCard xs"
  by (rule nth_equalityI) (simp_all add: card_timers_upt)

lemma snd_icon_timers: "map snd (icon_timers 0 xs) = map RevealIcon xs"
  by (rule nth_equalityI) (simp_all add: icon_timers_upt)

lemma fst_card_timers: "map fst (card_timers 0 xs) = map (\<lambda>i. 800 + i * 150) [0..<length xs]"
  by (simp add: card_timers_upt)

lemma fst_icon_timers: "map fst (icon_timers 0 xs) = map (\<lambda>i. 1400 + i * 100) [0..<length xs]"
  by (simp add: icon_timers_upt)

lemma increasing_affine:
  fixes a b :: nat
  assumes "0 < b"
  shows "sorted_wrt (<) (map (\<lambda>i. a + i * b) [0..<n])"
proof -
  have "sorted_wrt (\<lambda>i j. a + i * b < a + j * b) [0..<n]"
    by (rule sorted_wrt_mono_rel [of _ "(<)"]) (simp_all add: assms)
  then show ?thesis by (simp add: sorted_wrt_map)
qed

lemma last_affine:
  fixes a b :: nat
  assumes "0 < n"
  shows "last (map (\<lambda>i. a + i * b) [0..<n]) = a + b * (n - 1)"
proof -
  from assms obtain m where n: "n = Suc m" by (cases n) simp_all
  show ?thesis by (simp add: n)
qed

lemma fst_last_map: "xs \<noteq> [] \<Longrightarrow> fst (last xs) = last (map fst xs)"
  by (simp add: last_map)

text \<open>
  Claim C4. For card and icon lists of any length, \<^verbatim>\<open>setupPageLoadAnimations\<close> appends
  to the pending timeouts exactly one reveal per card, in list order, followed by exactly
  one reveal per icon, in list order. Within each group the delays are strictly increasing
  along the list, and when the group is not empty the delay of its last target is the
  group's base delay plus the per-item delay times the number of targets minus one
  (\<open>800\<close> and \<open>150\<close> for cards, \<open>1400\<close> and \<open>100\<close> for icons).
\<close>

theorem n_targets_n_increasing_timers:
  assumes "linkCards p = Some cards" and "socialIcons p = Some icons"
  shows "\<exists>p' cs ics. setupPageLoadAnimations p = Inr p' \<and>
           timers p' = timers p @ cs @ ics \<and>
           length cs = length cards \<and> map snd cs = map RevealCard cards \<and>
           sorted_wrt (<) (map fst cs) \<and>
           (cards \<noteq> [] \<longrightarrow> fst (last cs) = 800 + 150 * (length cards - 1)) \<and>
           length ics = length icons \<and> map snd ics = map RevealIcon icons \<and>
           sorted_wrt (<) (map fst ics) \<and>
           (icons \<noteq> [] \<longrightarrow> fst (last ics) = 1400 + 100 * (length icons - 1))"
proof -
  obtain p' where run: "setupPageLoadAnimations p = Inr p'"
    and t0: "timers p' = timers p @ card_timers 0 (nodeList_items (linkCards p))
                        @ icon_timers 0 (nodeList_items (socialIcons p))"
    by (rule setup_result)
  let ?cs = "card_timers 0 cards" and ?ics = "icon_timers 0 icons"
  have tm: "timers p' = timers p @ ?cs @ ?ics"
    by (simp add: t0 assms nodeList_items_def)
  have c_sorted: "sorted_wrt (<) (map fst ?cs)"
    unfolding fst_card_timers by (rule increasing_affine) simp
  have i_sorted: "sorted_wrt (<) (map fst ?ics)"
    unfolding fst_icon_timers by (rule increasing_affine) simp
  have c_last: "fst (last ?cs) = 800 + 150 * (length cards - 1)" if "cards \<noteq> []"
  proof -
    from that have "?cs \<noteq> []" using length_card_timers [of 0 cards] by auto
    then have "fst (last ?cs) = last (map fst ?cs)" by (rule fst_last_map)
    also have "\<dots> = 800 + 150 * (length cards - 1)"
      unfolding fst_card_timers using that by (intro last_affine) simp
    finally show ?thesis .
  qed
  have i_last: "fst (last ?ics) = 1400 + 100 * (length icons - 1)" if "icons \<noteq> []"
  proof -
    from that have "?ics \<noteq> []" using length_icon_timers [of 0 icons] by auto
    then have "fst (last ?ics) = last (map fst ?ics)" by (rule fst_last_map)
    also have "\<dots> = 1400 + 100 * (length icons - 1)"
      unfolding fst_icon_timers using that by (intro last_affine) simp
    finally show ?thesis .
  qed
  show ?thesis
  proof (intro exI conjI impI)
    show "setupPageLoadAnimations p = Inr p'" by (rule run)
    show "timers p' = timers p @ ?cs @ ?ics" by (rule tm)
    show "length ?cs = length cards" by (rule length_card_timers)
    show "map snd ?cs = map RevealCard cards" by (rule snd_card_timers)
    show "sorted_wrt (<) (map fst ?cs)" by (rule c_sorted)
    show "fst (last ?cs) = 800 + 150 * (length cards - 1)" if "cards \<noteq> []"
      using that by (rule c_last)
    show "length ?ics = length icons" by (rule length_icon_timers)
    show "map snd ?ics = map RevealIcon icons" by (rule snd_icon_timers)
    show "sorted_wrt (<) (map fst ?ics)" by (rule i_sorted)
    show "fst (last ?ics) = 1400 + 100 * (length icons - 1)" if "icons \<noteq> []"
      using that by (rule i_last)
  qed
qed

theorem n_targets_n_increasing_timers_witness:
  "\<exists>p' cs ics. setupPageLoadAnimations sample_page = Inr p' \<and> timers p' = cs @ ics \<and>
      length cs = 3 \<and> sorted_wrt (<) (map fst cs) \<and> fst (last cs) = 1100 \<and>
      length ics = 2 \<and> sorted_wrt (<) (map fst ics) \<and> fst (last ics) = 1500"
proof -
  have h1: "linkCards sample_page = Some [2, 3, 4]"
    and h2: "socialIcons sample_page = Some [5, 6]"
    and h3: "timers sample_page = []"
    by (simp_all add: sample_page_def)
  from n_targets_n_increasing_timers [OF h1 h2] obtain p' cs ics
    where "setupPageLoadAnimations sample_page = Inr p'"
      and "timers p' = timers sample_page @ cs @ ics"
      and "length cs = length [2, 3, 4::nat]"
      and "sorted_wrt (<) (map fst cs)"
      and "[2, 3, 4::nat] \<noteq> [] \<longrightarrow> fst (last cs) = 800 + 150 * (length [2, 3, 4::nat] - 1)"
      and "length ics = length [5, 6::nat]"
      and "sorted_wrt (<) (map fst ics)"
      and "[5, 6::nat] \<noteq> [] \<longrightarrow> fst (last ics) = 1400 + 100 * (length [5, 6::nat] - 1)"
    by (elim exE conjE)
  then have "setupPageLoadAnimations sample_page = Inr p' \<and> timers p' = cs @ ics \<and>
      length cs = 3 \<and> sorted_wrt (<) (map fst cs) \<and> fst (last cs) = 1100 \<and>
      length ics = 2 \<and> sorted_wrt (<) (map fst ics) \<and> fst (last ics) = 1500"
    by (simp add: h3)
  then show ?thesis by (intro exI)
qed

section \<open>Empty target lists\<close>

text \<open>
  Claim C6. With an empty card list the card block returns the page as it was, with an
  empty icon list the icon block does, and with both empty the whole of
  \<^verbatim>\<open>setupPageLoadAnimations\<close> returns normally with the page unchanged: no timeout is
  armed, no style is written and the console receives no line.
\<close>

theorem empty_sequence_is_noop:
  "(linkCards p = Some [] \<longrightarrow> animateLinkCards p = Inr p) \<and>
   (socialIcons p = Some [] \<longrightarrow> animateSocialIcons p = Inr p) \<and>
   (linkCards p = Some [] \<and> socialIcons p = Some [] \<longrightarrow> setupPageLoadAnimations p = Inr p)"
proof (intro conjI impI)
  show "animateLinkCards p = Inr p" if "linkCards p = Some []"
    by (simp add: animateLinkCards_eq nodeList_items_def that)
  show "animateSocialIcons p = Inr p" if "socialIcons p = Some []"
    by (simp add: animateSocialIcons_eq nodeList_items_def that)
  show "setupPageLoadAnimations p = Inr p"
    if "linkCards p = Some [] \<and> socialIcons p = Some []"
    by (simp add: setupPageLoadAnimations_def animateLinkCards_eq animateSocialIcons_eq
        nodeList_items_def that)
qed

theorem empty_sequence_is_noop_witness:
  "setupPageLoadAnimations (sample_page\<lparr>linkCards := Some [], socialIcons := Some []\<rparr>)
     = Inr (sample_page\<lparr>linkCards := Some [], socialIcons := Some []\<rparr>)"
  using empty_sequence_is_noop [of "sample_page\<lparr>linkCards := Some [], socialIcons := Some []\<rparr>"]
  by simp

section \<open>Hidden and final style values\<close>

lemma map_on_in: "e \<in> set xs \<Longrightarrow> map_on xs f st e = f (st e)"
  by (simp add: map_on_def)

lemma map_on_out: "e \<notin> set xs \<Longrightarrow> map_on xs f st e = st e"
  by (simp add: map_on_def)

text \<open>
  Claim C5. \<^verbatim>\<open>setupPageLoadAnimations\<close> leaves every card (that is not also an icon)
  with opacity \<open>0\<close> and transform \<open>translateY(30px)\<close>, a vertical offset with no scale
  function, and every icon with opacity \<open>0\<close> and transform
  \<open>translateY(20px) scale(0.8)\<close>, an offset and a scale below one; the other style
  properties keep their values. When a pending card reveal fires it assigns the transition
  \<open>all 0.6s cubic-bezier(0.4, 0, 0.2, 1)\<close>, opacity \<open>1\<close> and transform
  \<open>translateY(0)\<close> (no offset, and no scale function, hence the identity scale); an icon
  reveal assigns \<open>all 0.5s cubic-bezier(0.4, 0, 0.2, 1)\<close>, opacity \<open>1\<close> and
  \<open>translateY(0) scale(1)\<close>. Both transitions have a constant duration and an easing
  curve.
\<close>

theorem hidden_then_final_state:
  assumes "linkCards p = Some cards" and "socialIcons p = Some icons"
  shows "\<exists>p'. setupPageLoadAnimations p = Inr p' \<and>
     (\<forall>e \<in> set cards - set icons.
        style (elems p' e) =
          (style (elems p e))\<lparr>opacity := ''0'', transform := ''translateY(30px)''\<rparr>) \<and>
     (\<forall>e \<in> set icons.
        style (elems p' e) =
          (style (elems p e))\<lparr>opacity := ''0'', transform := ''translateY(20px) scale(0.8)''\<rparr>) \<and>
     (\<forall>q k e. k < length (timers q) \<and> snd (timers q ! k) = RevealCard e \<longrightarrow>
        style (elems (step (TimerFires k) q) e) =
          (style (elems q e))\<lparr>transition := ''all 0.6s cubic-bezier(0.4, 0, 0.2, 1)'',
                               opacity := ''1'', transform := ''translateY(0)''\<rparr>) \<and>
     (\<forall>q k e. k < length (timers q) \<and> snd (timers q ! k) = RevealIcon e \<longrightarrow>
        style (elems (step (TimerFires k) q) e) =
          (style (elems q e))\<lparr>transition := ''all 0.5s cubic-bezier(0.4, 0, 0.2, 1)'',
                               opacity := ''1'', transform := ''translateY(0) scale(1)''\<rparr>)"
proof -
  obtain p' where run: "setupPageLoadAnimations p = Inr p'"
    and el: "elems p' = map_on (nodeList_items (socialIcons p)) hide_icon
                       (map_on (nodeList_items (linkCards p)) hide_card (elems p))"
    by (rule setup_result)
  have el': "elems p' = map_on icons hide_icon (map_on cards hide_card (elems p))"
    by (simp add: el assms nodeList_items_def)
  have cardH: "style (elems p' e) =
          (style (elems p e))\<lparr>opacity := ''0'', transform := ''translateY(30px)''\<rparr>"
    if "e \<in> set cards - set icons" for e
    using that by (simp add: el' map_on_in map_on_out hide_card_def)
  have iconH: "style (elems p' e) =
          (style (elems p e))\<lparr>opacity := ''0'', transform := ''translateY(20px) scale(0.8)''\<rparr>"
    if "e \<in> set icons" for e
    using that by (cases "e \<in> set cards") (simp_all add: el' map_on_in map_on_out hide_card_def hide_icon_def)
  have cardF: "style (elems (step (TimerFires k) q) e) =
          (style (elems q e))\<lparr>transition := ''all 0.6s cubic-bezier(0.4, 0, 0.2, 1)'',
                               opacity := ''1'', transform := ''translateY(0)''\<rparr>"
    if "k < length (timers q) \<and> snd (timers q ! k) = RevealCard e" for q k e
    using that by (simp add: update_style_def)
  have iconF: "style (elems (step (TimerFires k) q) e) =
          (style (elems q e))\<lparr>transition := ''all 0.5s cubic-bezier(0.4, 0, 0.2, 1)'',
                               opacity := ''1'', transform := ''translateY(0) scale(1)''\<rparr>"
    if "k < length (timers q) \<and> snd (timers q ! k) = RevealIcon e" for q k e
    using that by (simp add: update_style_def)
  show ?thesis
  proof (intro exI conjI ballI allI impI)
    show "setupPageLoadAnimations p = Inr p'" by (rule run)
  qed (fact cardH iconH cardF iconF)+
qed

theorem hidden_then_final_state_witness:
  "\<exists>p'. setupPageLoadAnimations sample_page = Inr p' \<and>
     style (elems p' 2) = blank_style\<lparr>opacity := ''0'', transform := ''translateY(30px)''\<rparr> \<and>
     style (elems p' 5) =
       blank_style\<lparr>opacity := ''0'', transform := ''translateY(20px) scale(0.8)''\<rparr> \<and>
     style (elems (step (TimerFires 0) p') 2) =
       blank_style\<lparr>transition := ''all 0.6s cubic-bezier(0.4, 0, 0.2, 1)'',
                    opacity := ''1'', transform := ''translateY(0)''\<rparr> \<and>
     style (elems (step (TimerFires 3) p') 5) =
       blank_style\<lparr>transition := ''all 0.5s cubic-bezier(0.4, 0, 0.2, 1)'',
                    opacity := ''1'', transform := ''translateY(0) scale(1)''\<rparr>"
proof -
  have h1: "linkCards sample_page = Some [2, 3, 4]"
    and h2: "socialIcons sample_page = Some [5, 6]"
    by (simp_all add: sample_page_def)
  from hidden_then_final_state [OF h1 h2] obtain p'
    where run: "setupPageLoadAnimations sample_page = Inr p'"
      and cardH: "\<forall>e \<in> set [2, 3, 4] - set [5, 6].
        style (elems p' e) =
          (style (elems sample_page e))\<lparr>opacity := ''0'', transform := ''translateY(30px)''\<rparr>"
      and iconH: "\<forall>e \<in> set [5, 6].
        style (elems p' e) =
          (style (elems sample_page e))\<lparr>opacity := ''0'', transform := ''translateY(20px) scale(0.8)''\<rparr>"
      and cardF: "\<forall>q k e. k < length (timers q) \<and> snd (timers q ! k) = RevealCard e \<longrightarrow>
        style (elems (step (TimerFires k) q) e) =
          (style (elems q e))\<lparr>transition := ''all 0.6s cubic-bezier(0.4, 0, 0.2, 1)'',
                               opacity := ''1'', transform := ''translateY(0)''\<rparr>"
      and iconF: "\<forall>q k e. k < length (timers q) \<and> snd (timers q ! k) = RevealIcon e \<longrightarrow>
        style (elems (step (TimerFires k) q) e) =
          (style (elems q e))\<lparr>transition := ''all 0.5s cubic-bezier(0.4, 0, 0.2, 1)'',
                               opacity := ''1'', transform := ''translateY(0) scale(1)''\<rparr>"
    by (elim exE conjE)
  obtain p'' where run': "setupPageLoadAnimations sample_page = Inr p''"
    and t0: "timers p'' = timers sample_page @ card_timers 0 (nodeList_items (linkCards sample_page))
                        @ icon_timers 0 (nodeList_items (socialIcons sample_page))"
    by (rule setup_result)
  from run run' have "p'' = p'" by simp
  with t0 have tm: "timers p' = [(800, RevealCard 2), (950, RevealCard 3), (1100, RevealCard 4),
                  (1400, RevealIcon 5), (1500, RevealIcon 6)]"
    by (simp add: sample_page_def nodeList_items_def card_timers_def icon_timers_def)
  have s2: "style (elems p' 2) = blank_style\<lparr>opacity := ''0'', transform := ''translateY(30px)''\<rparr>"
    using cardH by (simp add: sample_page_def sample_elems_def)
  have s5: "style (elems p' 5) =
       blank_style\<lparr>opacity := ''0'', transform := ''translateY(20px) scale(0.8)''\<rparr>"
    using iconH by (simp add: sample_page_def sample_elems_def)
  have "0 < length (timers p') \<and> snd (timers p' ! 0) = RevealCard 2"
    by (simp add: tm)
  with cardF have "style (elems (step (TimerFires 0) p') 2) =
          (style (elems p' 2))\<lparr>transition := ''all 0.6s cubic-bezier(0.4, 0, 0.2, 1)'',
                               opacity := ''1'', transform := ''translateY(0)''\<rparr>"
    by (elim allE impE)
  then have f2: "style (elems (step (TimerFires 0) p') 2) =
       blank_style\<lparr>transition := ''all 0.6s cubic-bezier(0.4, 0, 0.2, 1)'',
                    opacity := ''1'', transform := ''translateY(0)''\<rparr>"
    by (simp add: s2 blank_style_def)
  have "3 < length (timers p') \<and> snd (timers p' ! 3) = RevealIcon 5"
    by (simp add: tm)
  with iconF have "style (elems (step (TimerFires 3) p') 5) =
          (style (elems p' 5))\<lparr>transition := ''all 0.5s cubic-bezier(0.4, 0, 0.2, 1)'',
                               opacity := ''1'', transform := ''translateY(0) scale(1)''\<rparr>"
    by (elim allE impE)
  then have f5: "style (elems (step (TimerFires 3) p') 5) =
       blank_style\<lparr>transition := ''all 0.5s cubic-bezier(0.4, 0, 0.2, 1)'',
                    opacity := ''1'', transform := ''translateY(0) scale(1)''\<rparr>"
    by (simp add: s5 blank_style_def)
  from run s2 s5 f2 f5 show ?thesis by (intro exI conjI)
qed

section \<open>Initialisation in closed form\<close>

lemma same_styles_refl: "same_styles p p"
  by (simp add: same_styles_def)

lemma same_styles_trans: "same_styles p q \<Longrightarrow> same_styles q r \<Longrightarrow> same_styles p r"
  by (simp add: same_styles_def)

lemma same_styles_addEventListener: "same_styles p (addEventListener k h e p)"
  by (simp add: same_styles_def addEventListener_def)

lemma same_styles_console_log: "same_styles p (console_log l p)"
  by (simp add: same_styles_def console_log_def)

lemma same_styles_cardListeners: "same_styles p (cardListeners e i p)"
  unfolding cardListeners_def
  by (intro same_styles_trans [OF _ same_styles_addEventListener] same_styles_addEventListener)

lemma same_styles_iconListeners: "same_styles p (iconListeners e i p)"
  unfolding iconListeners_def
  by (intro same_styles_trans [OF _ same_styles_addEventListener] same_styles_addEventListener)

lemma same_styles_forEach:
  assumes "\<And>x i q. same_styles q (f x i q)"
  shows "same_styles p (forEach_from f xs i p)"
proof (induction xs arbitrary: i p)
  case Nil
  show ?case by (simp add: same_styles_refl)
next
  case (Cons x xs)
  have "same_styles p (f x i p)" by (rule assms)
  moreover have "same_styles (f x i p) (forEach_from f xs (Suc i) (f x i p))" by (rule Cons.IH)
  ultimately have "same_styles p (forEach_from f xs (Suc i) (f x i p))"
    by (rule same_styles_trans)
  then show ?case by simp
qed

lemma setupHoverEffects_result:
  obtains p' where "setupHoverEffects p = Inr p'" and "same_styles p p'"
proof -
  let ?cs = "nodeList_items (linkCards p)"
  let ?p1 = "if truthy (linkCards p)
             then console_log HoverSetupComplete (forEach_from cardListeners ?cs 0 p) else p"
  have s1: "same_styles p ?p1"
    by (simp add: same_styles_refl
        same_styles_trans [OF same_styles_forEach [of cardListeners, OF same_styles_cardListeners]
          same_styles_console_log])
  have first: "(if truthy (linkCards p) then
              (case nodeList_forEach (linkCards p) cardListeners p of
                 Inl err \<Rightarrow> Inl err
               | Inr p' \<Rightarrow> Inr (console_log HoverSetupComplete p'))
            else Inr p) = Inr ?p1"
    by (cases "linkCards p") (simp_all add: truthy_def nodeList_forEach_def nodeList_items_def)
  let ?p2 = "if truthy (socialIcons ?p1)
             then forEach_from iconListeners (nodeList_items (socialIcons ?p1)) 0 ?p1 else ?p1"
  have s2: "same_styles ?p1 ?p2"
    by (simp add: same_styles_refl same_styles_forEach [of iconListeners, OF same_styles_iconListeners])
  have second: "(if truthy (socialIcons ?p1) then nodeList_forEach (socialIcons ?p1) iconListeners ?p1
          else Inr ?p1) = Inr ?p2"
    by (cases "socialIcons ?p1") (simp_all add: truthy_def nodeList_forEach_def nodeList_items_def)
  have "setupHoverEffects p = Inr ?p2"
    unfolding setupHoverEffects_def first by (simp only: sum.case second)
  moreover have "same_styles p ?p2"
    by (rule same_styles_trans [OF s1 s2])
  ultimately show thesis by (rule that)
qed

lemma setupScrollAnimations_result:
  obtains p' where "setupScrollAnimations p = Inr p'"
    and "timers p' = timers p" and "frames p' = frames p" and "elems p' = elems p"
    and "console p' = console p" and "linkCards p' = linkCards p"
    and "socialIcons p' = socialIcons p" and "footer p' = footer p"
    and "document p' = document p" and "enabled p' = enabled p"
    and "set (observed p') = set (observed p) \<union> set_option (footer p)"
proof (cases "footer p")
  case None
  then have "setupScrollAnimations p = Inr p"
    by (simp add: setupScrollAnimations_def truthy_def)
  then show thesis by (rule that) (simp_all add: None)
next
  case (Some f)
  let ?p' = "if f \<in> set (observed p) then p else p\<lparr>observed := observed p @ [f]\<rparr>"
  from Some have "setupScrollAnimations p = Inr ?p'"
    by (simp add: setupScrollAnimations_def truthy_def observe_def)
  then show thesis by (rule that) (auto simp: Some)
qed

lemma forEach_disableOne:
  "forEach_from disableOne xs i p = p\<lparr>elems := map_on xs show_element (elems p)\<rparr>"
proof (induction xs arbitrary: i p)
  case Nil
  show ?case by (simp add: map_on_Nil)
next
  case (Cons x xs)
  have one: "disableOne x i p = p\<lparr>elems := (elems p)(x := show_element (elems p x))\<rparr>"
    by (simp add: disableOne_def update_style_def show_element_def)
  have idem: "\<And>el. show_element (show_element el) = show_element el"
    by (simp add: show_element_def)
  have "forEach_from disableOne (x # xs) i p = forEach_from disableOne xs (Suc i) (disableOne x i p)"
    by simp
  also have "\<dots> = (disableOne x i p)\<lparr>elems := map_on xs show_element (elems (disableOne x i p))\<rparr>"
    by (rule Cons.IH)
  also have "\<dots> = p\<lparr>elems := map_on (x # xs) show_element (elems p)\<rparr>"
    by (simp add: one map_on_upd idem)
  finally show ?case .
qed

lemma disableAnimations_eq:
  "disableAnimations p =
     Inr (p\<lparr>elems := map_on (querySelectorAll p
                [''link-card'', ''social-icon'', ''hero-section'', ''social-section'', ''footer''])
                show_element (elems p),
            console := console p @ [AnimationsDisabled]\<rparr>)"
  by (simp add: disableAnimations_def nodeList_forEach_def forEach_disableOne console_log_def)

lemma init_disabled_result:
  assumes "\<not> enabled p"
  obtains p' where "init p = Inr p'"
    and "elems p' = map_on (querySelectorAll p
                [''link-card'', ''social-icon'', ''hero-section'', ''social-section'', ''footer''])
                show_element (elems p)"
    and "timers p' = timers p" and "frames p' = frames p" and "observed p' = observed p"
    and "linkCards p' = linkCards p" and "socialIcons p' = socialIcons p"
    and "console p' = console p @ [AnimationsDisabled]"
proof -
  let ?p' = "p\<lparr>elems := map_on (querySelectorAll p
                [''link-card'', ''social-icon'', ''hero-section'', ''social-section'', ''footer''])
                show_element (elems p),
            console := console p @ [AnimationsDisabled]\<rparr>"
  have "init p = Inr ?p'"
    using assms by (simp add: init_def disableAnimations_eq)
  then show thesis by (rule that) simp_all
qed

lemma init_enabled_result:
  assumes "enabled p"
  obtains p' where "init p = Inr p'"
    and "timers p' = timers p @ card_timers 0 (nodeList_items (linkCards p))
                        @ icon_timers 0 (nodeList_items (socialIcons p))"
    and "\<forall>e. style (elems p' e) =
           style (map_on (nodeList_items (socialIcons p)) hide_icon
                       (map_on (nodeList_items (linkCards p)) hide_card (elems p)) e)"
    and "\<forall>e. classList (elems p' e) = classList (elems p e)"
    and "frames p' = frames p"
    and "set (observed p') = set (observed p) \<union> set_option (footer p)"
proof -
  obtain p1 where r1: "setupPageLoadAnimations p = Inr p1"
    and e1: "elems p1 = map_on (nodeList_items (socialIcons p)) hide_icon
                       (map_on (nodeList_items (linkCards p)) hide_card (elems p))"
    and t1: "timers p1 = timers p @ card_timers 0 (nodeList_items (linkCards p))
                        @ icon_timers 0 (nodeList_items (socialIcons p))"
    and f1: "footer p1 = footer p" "frames p1 = frames p" "observed p1 = observed p"
    by (rule setup_result)
  obtain p2 where r2: "setupHoverEffects p1 = Inr p2" and s2: "same_styles p1 p2"
    by (rule setupHoverEffects_result)
  obtain p3 where r3: "setupScrollAnimations p2 = Inr p3"
    and t3: "timers p3 = timers p2" "frames p3 = frames p2" "elems p3 = elems p2"
    and o3: "set (observed p3) = set (observed p2) \<union> set_option (footer p2)"
    by (rule setupScrollAnimations_result)
  have run: "init p = Inr p3"
    using assms by (simp add: init_def r1 r2 r3)
  have cl1: "classList (elems p1 e) = classList (elems p e)" for e
    by (simp add: e1 map_on_def hide_card_def hide_icon_def)
  show thesis
  proof (rule that [OF run])
    show "timers p3 = timers p @ card_timers 0 (nodeList_items (linkCards p))
                        @ icon_timers 0 (nodeList_items (socialIcons p))"
      using s2 by (simp add: t3 t1 same_styles_def)
    show "\<forall>e. style (elems p3 e) =
           style (map_on (nodeList_items (socialIcons p)) hide_icon
                       (map_on (nodeList_items (linkCards p)) hide_card (elems p)) e)"
      using s2 by (simp add: t3 e1 [symmetric] same_styles_def)
    show "\<forall>e. classList (elems p3 e) = classList (elems p e)"
      using s2 by (simp add: t3 cl1 same_styles_def)
    show "frames p3 = frames p"
      using s2 by (simp add: t3 f1 same_styles_def)
    show "set (observed p3) = set (observed p) \<union> set_option (footer p)"
      using s2 by (simp add: o3 f1 same_styles_def)
  qed
qed

section \<open>What the callbacks leave alone\<close>

lemma keeps_refl: "keeps_reveal_state p p"
  by (simp add: keeps_reveal_state_def)

lemma keeps_trans:
  "keeps_reveal_state p q \<Longrightarrow> keeps_reveal_state q r \<Longrightarrow> keeps_reveal_state p r"
  by (simp add: keeps_reveal_state_def)

lemma keeps_update_style:
  assumes "\<And>s. opacity (f s) = opacity s" and "\<And>s. transition (f s) = transition s"
  shows "keeps_reveal_state p (update_style e f p)"
  by (simp add: keeps_reveal_state_def update_style_def assms)

lemma keeps_set_transform_if: "keeps_reveal_state p (set_transform_if t v p)"
  by (cases t) (simp_all add: set_transform_if_def keeps_refl keeps_update_style)

lemma keeps_raf_prop:
  "keeps_reveal_state p
     (p\<lparr>elems := (elems p)(el := (elems p el)\<lparr>requestAnimationFrameProp := h\<rparr>)\<rparr>)"
  by (simp add: keeps_reveal_state_def)

lemma keeps_requestAnimationFrame:
  "keeps_reveal_state p (snd (requestAnimationFrame cb p))"
  by (simp add: keeps_reveal_state_def requestAnimationFrame_def)

lemma keeps_handleCardHover: "keeps_reveal_state p (handleCardHover el b p)"
proof (cases b)
  case True
  let ?arrow = "querySelector_in p el [''link-arrow'']"
  let ?logo = "querySelector_in p el [''logo-container'']"
  let ?p1 = "set_transform_if ?arrow ''translateX(6px)'' p"
  let ?p2 = "set_transform_if ?logo ''scale(1.15)'' ?p1"
  let ?p3 = "update_style el (\<lambda>s. s\<lparr>animationDuration := ''2s''\<rparr>) ?p2"
  let ?p4 = "update_style el (\<lambda>s. s\<lparr>animationName := ''none''\<rparr>) ?p3"
  let ?p5 = "snd (requestAnimationFrame (PulseCard el) ?p4)"
  let ?h = "fst (requestAnimationFrame (PulseCard el) ?p4)"
  let ?p6 = "?p5\<lparr>elems := (elems ?p5)(el := (elems ?p5 el)\<lparr>requestAnimationFrameProp := Some ?h\<rparr>)\<rparr>"
  have eq: "handleCardHover el True p = ?p6"
    unfolding handleCardHover_def Let_def split_beta by (rule if_P) simp
  have k1: "keeps_reveal_state p ?p1" by (rule keeps_set_transform_if)
  have k2: "keeps_reveal_state ?p1 ?p2" by (rule keeps_set_transform_if)
  have k3: "keeps_reveal_state ?p2 ?p3" by (rule keeps_update_style) simp_all
  have k4: "keeps_reveal_state ?p3 ?p4" by (rule keeps_update_style) simp_all
  have k5: "keeps_reveal_state ?p4 ?p5" by (rule keeps_requestAnimationFrame)
  have k6: "keeps_reveal_state ?p5 ?p6" by (rule keeps_raf_prop)
  have "keeps_reveal_state p ?p6"
    by (rule keeps_trans [OF keeps_trans [OF keeps_trans [OF keeps_trans
          [OF keeps_trans [OF k1 k2] k3] k4] k5] k6])
  moreover from True have "b = True" by simp
  ultimately show ?thesis by (simp only: eq)
next
  case False
  let ?arrow = "querySelector_in p el [''link-arrow'']"
  let ?logo = "querySelector_in p el [''logo-container'']"
  let ?p1 = "set_transform_if ?arrow ''translateX(0)'' p"
  let ?p2 = "set_transform_if ?logo ''scale(1)'' ?p1"
  let ?p3 = "update_style el (\<lambda>s. s\<lparr>animationName := ''none''\<rparr>) ?p2"
  have eq: "handleCardHover el False p = ?p3"
    unfolding handleCardHover_def Let_def by (rule if_not_P) simp
  have k1: "keeps_reveal_state p ?p1" by (rule keeps_set_transform_if)
  have k2: "keeps_reveal_state ?p1 ?p2" by (rule keeps_set_transform_if)
  have k3: "keeps_reveal_state ?p2 ?p3" by (rule keeps_update_style) simp_all
  have "keeps_reveal_state p ?p3"
    by (rule keeps_trans [OF keeps_trans [OF k1 k2] k3])
  moreover from False have "b = False" by simp
  ultimately show ?thesis by (simp only: eq)
qed

lemma keeps_run_handler: "keeps_reveal_state p (run_handler h t p)"
  by (cases h) (simp_all add: keeps_handleCardHover keeps_update_style)

lemma keeps_run_listeners: "keeps_reveal_state p (run_listeners ls k e p)"
proof (induction ls arbitrary: p)
  case Nil
  show ?case by (simp add: keeps_refl)
next
  case (Cons l ls)
  obtain k' h where l: "l = (k', h)" by (cases l)
  let ?q = "if k' = k then run_handler h e p else p"
  have "keeps_reveal_state p ?q" by (simp add: keeps_refl keeps_run_handler)
  moreover have "keeps_reveal_state ?q (run_listeners ls k e ?q)" by (rule Cons.IH)
  ultimately have "keeps_reveal_state p (run_listeners ls k e ?q)" by (rule keeps_trans)
  then show ?case unfolding l by simp
qed

lemma keeps_observerEntry: "keeps_reveal_state p (observerEntry en p)"
  by (simp add: observerEntry_def keeps_reveal_state_def)

lemma keeps_observerCallback: "keeps_reveal_state p (observerCallback ens p)"
proof (induction ens arbitrary: p)
  case Nil
  show ?case by (simp add: keeps_refl)
next
  case (Cons en ens)
  have "keeps_reveal_state p (observerEntry en p)" by (rule keeps_observerEntry)
  moreover have "keeps_reveal_state (observerEntry en p) (observerCallback ens (observerEntry en p))"
    by (rule Cons.IH)
  ultimately have "keeps_reveal_state p (observerCallback ens (observerEntry en p))"
    by (rule keeps_trans)
  then show ?case by simp
qed

lemma keeps_frame_step: "keeps_reveal_state p (step (FrameFires k) p)"
proof (cases "k < length (frames p)")
  case True
  obtain el where cb: "frames p ! k = PulseCard el" by (cases "frames p ! k")
  let ?q = "p\<lparr>frames := take k (frames p) @ drop (Suc k) (frames p)\<rparr>"
  have "keeps_reveal_state p ?q" by (simp add: keeps_reveal_state_def)
  moreover have "keeps_reveal_state ?q (run_frame (PulseCard el) ?q)"
    by (simp add: keeps_update_style)
  ultimately have "keeps_reveal_state p (run_frame (PulseCard el) ?q)" by (rule keeps_trans)
  with True show ?thesis by (simp add: cb)
next
  case False
  then show ?thesis by (simp add: keeps_refl)
qed

lemma keeps_other_steps:
  assumes "\<And>k. ev \<noteq> TimerFires k"
  shows "keeps_reveal_state p (step ev p)"
proof (cases ev)
  case (TimerFires k)
  with assms [of k] show ?thesis by (elim notE)
next
  case (FrameFires k)
  then show ?thesis by (simp only: keeps_frame_step)
next
  case (Dispatch k e)
  then show ?thesis by (simp add: keeps_run_listeners)
next
  case (Intersects ens)
  then show ?thesis by (simp add: keeps_observerCallback)
qed

lemma timer_step_other:
  assumes "k < length (timers p)" and "\<not> reveals e (timers p ! k)"
  shows "style (elems (step (TimerFires k) p) e) = style (elems p e)"
proof (cases "snd (timers p ! k)")
  case (RevealCard x)
  with assms have "x \<noteq> e" by (auto simp: reveals_def)
  with assms(1) RevealCard show ?thesis by (simp add: update_style_def)
next
  case (RevealIcon x)
  with assms have "x \<noteq> e" by (auto simp: reveals_def)
  with assms(1) RevealIcon show ?thesis by (simp add: update_style_def)
qed

lemma style_change_needs_own_timer:
  assumes "opacity (style (elems (step ev p) e)) \<noteq> opacity (style (elems p e)) \<or>
           transition (style (elems (step ev p) e)) \<noteq> transition (style (elems p e))"
  shows "\<exists>k<length (timers p). ev = TimerFires k \<and> reveals e (timers p ! k)"
proof (cases "\<exists>k. ev = TimerFires k")
  case False
  then have "keeps_reveal_state p (step ev p)" by (intro keeps_other_steps) simp
  with assms show ?thesis by (simp add: keeps_reveal_state_def)
next
  case True
  then obtain k where ev: "ev = TimerFires k" ..
  show ?thesis
  proof (cases "k < length (timers p)")
    case False
    with assms ev show ?thesis by simp
  next
    case k: True
    show ?thesis
    proof (cases "reveals e (timers p ! k)")
      case True
      with k ev show ?thesis by (intro exI [of _ k] conjI)
    next
      case False
      from timer_step_other [OF k False] assms ev show ?thesis by simp
    qed
  qed
qed

section \<open>The cached queries\<close>

lemma cacheDOMElements_fields:
  "elems (cacheDOMElements p) = elems p" "document (cacheDOMElements p) = document p"
  "enabled (cacheDOMElements p) = enabled p" "timers (cacheDOMElements p) = timers p"
  "frames (cacheDOMElements p) = frames p" "observed (cacheDOMElements p) = observed p"
  "linkCards (cacheDOMElements p) = Some (querySelectorAll p [''link-card''])"
  "socialIcons (cacheDOMElements p) = Some (querySelectorAll p [''social-icon''])"
  "footer (cacheDOMElements p) = querySelector p [''footer'']"
  by (simp_all add: cacheDOMElements_def Let_def console_log_def)

lemma matches_cached: "matches (cacheDOMElements p) sel = matches p sel"
  by (simp add: matches_def cacheDOMElements_fields fun_eq_iff)

lemma querySelectorAll_cached:
  "querySelectorAll (cacheDOMElements p) sel = querySelectorAll p sel"
  by (simp add: querySelectorAll_def matches_cached cacheDOMElements_fields)

lemma in_querySelectorAll:
  "e \<in> set (querySelectorAll p sel) \<longleftrightarrow>
     e \<in> set (document p) \<and> (\<exists>c \<in> set sel. c \<in> set (classList (elems p e)))"
  by (simp add: querySelectorAll_def matches_def)

section \<open>Hiding is synchronous, the transition comes with the reveal\<close>

text \<open>
  Claim C9. With animations enabled, \<^verbatim>\<open>init\<close> returns normally and, when it returns,
  every card and icon has opacity \<open>0\<close>, every card that is not also an icon has
  transform \<open>translateY(30px)\<close> and every icon \<open>translateY(20px) scale(0.8)\<close>; the
  reveals it armed are all still pending, after whatever was pending before; and the
  transition property of every element is what it was before the call. Afterwards the
  only event that can change the transition property of an element is the firing of a
  pending reveal of that same element, and that firing does assign it: the reveal of a
  card sets its transition to \<open>all 0.6s cubic-bezier(0.4, 0, 0.2, 1)\<close> and the reveal of
  an icon sets its transition to \<open>all 0.5s cubic-bezier(0.4, 0, 0.2, 1)\<close>.
\<close>

theorem hidden_at_once_transition_at_reveal:
  assumes "enabled p" and "linkCards p = Some cards" and "socialIcons p = Some icons"
  shows "\<exists>p'. init p = Inr p' \<and>
    (\<forall>e \<in> set cards \<union> set icons. opacity (style (elems p' e)) = ''0'') \<and>
    (\<forall>e \<in> set cards - set icons. transform (style (elems p' e)) = ''translateY(30px)'') \<and>
    (\<forall>e \<in> set icons. transform (style (elems p' e)) = ''translateY(20px) scale(0.8)'') \<and>
    (\<forall>e. transition (style (elems p' e)) = transition (style (elems p e))) \<and>
    timers p' = timers p
       @ map (\<lambda>i. (800 + i * 150, RevealCard (cards ! i))) [0..<length cards]
       @ map (\<lambda>i. (1400 + i * 100, RevealIcon (icons ! i))) [0..<length icons] \<and>
    (\<forall>ev q e. transition (style (elems (step ev q) e)) \<noteq> transition (style (elems q e)) \<longrightarrow>
       (\<exists>k<length (timers q). ev = TimerFires k \<and>
          (snd (timers q ! k) = RevealCard e \<or> snd (timers q ! k) = RevealIcon e))) \<and>
    (\<forall>q k e. k < length (timers q) \<and> snd (timers q ! k) = RevealCard e \<longrightarrow>
       transition (style (elems (step (TimerFires k) q) e)) =
         ''all 0.6s cubic-bezier(0.4, 0, 0.2, 1)'') \<and>
    (\<forall>q k e. k < length (timers q) \<and> snd (timers q ! k) = RevealIcon e \<longrightarrow>
       transition (style (elems (step (TimerFires k) q) e)) =
         ''all 0.5s cubic-bezier(0.4, 0, 0.2, 1)'')"
proof -
  obtain p' where run: "init p = Inr p'"
    and t0: "timers p' = timers p @ card_timers 0 (nodeList_items (linkCards p))
                        @ icon_timers 0 (nodeList_items (socialIcons p))"
    and st0: "\<forall>e. style (elems p' e) =
           style (map_on (nodeList_items (socialIcons p)) hide_icon
                       (map_on (nodeList_items (linkCards p)) hide_card (elems p)) e)"
    using assms(1) by (rule init_enabled_result)
  have st: "style (elems p' e) = style (map_on icons hide_icon (map_on cards hide_card (elems p)) e)"
    for e
    by (simp add: st0 assms nodeList_items_def)
  have op: "\<forall>e \<in> set cards \<union> set icons. opacity (style (elems p' e)) = ''0''"
    by (auto simp: st map_on_def hide_card_def hide_icon_def)
  have tc: "\<forall>e \<in> set cards - set icons. transform (style (elems p' e)) = ''translateY(30px)''"
    by (simp add: st map_on_def hide_card_def)
  have ti: "\<forall>e \<in> set icons. transform (style (elems p' e)) = ''translateY(20px) scale(0.8)''"
    by (simp add: st map_on_def hide_icon_def)
  have tr: "\<forall>e. transition (style (elems p' e)) = transition (style (elems p e))"
    by (simp add: st map_on_def hide_card_def hide_icon_def)
  have tm: "timers p' = timers p
       @ map (\<lambda>i. (800 + i * 150, RevealCard (cards ! i))) [0..<length cards]
       @ map (\<lambda>i. (1400 + i * 100, RevealIcon (icons ! i))) [0..<length icons]"
    by (simp add: t0 assms nodeList_items_def card_timers_upt icon_timers_upt)
  have only: "\<forall>ev q e. transition (style (elems (step ev q) e)) \<noteq> transition (style (elems q e)) \<longrightarrow>
       (\<exists>k<length (timers q). ev = TimerFires k \<and>
          (snd (timers q ! k) = RevealCard e \<or> snd (timers q ! k) = RevealIcon e))"
  proof (intro allI impI)
    fix ev q e
    assume "transition (style (elems (step ev q) e)) \<noteq> transition (style (elems q e))"
    then show "\<exists>k<length (timers q). ev = TimerFires k \<and>
          (snd (timers q ! k) = RevealCard e \<or> snd (timers q ! k) = RevealIcon e)"
      using style_change_needs_own_timer [of ev q e] by (simp add: reveals_def)
  qed
  have atc: "\<forall>q k e. k < length (timers q) \<and> snd (timers q ! k) = RevealCard e \<longrightarrow>
       transition (style (elems (step (TimerFires k) q) e)) =
         ''all 0.6s cubic-bezier(0.4, 0, 0.2, 1)''"
    by (simp add: update_style_def)
  have ati: "\<forall>q k e. k < length (timers q) \<and> snd (timers q ! k) = RevealIcon e \<longrightarrow>
       transition (style (elems (step (TimerFires k) q) e)) =
         ''all 0.5s cubic-bezier(0.4, 0, 0.2, 1)''"
    by (simp add: update_style_def)
  from run op tc ti tr tm only atc ati show ?thesis by (intro exI conjI)
qed

theorem hidden_at_once_transition_at_reveal_witness:
  "\<exists>p'. init sample_page = Inr p' \<and>
     opacity (style (elems p' 2)) = ''0'' \<and> transform (style (elems p' 2)) = ''translateY(30px)'' \<and>
     opacity (style (elems p' 5)) = ''0'' \<and>
     transform (style (elems p' 5)) = ''translateY(20px) scale(0.8)'' \<and>
     transition (style (elems p' 2)) = [] \<and> transition (style (elems p' 5)) = [] \<and>
     map fst (timers p') = [800, 950, 1100, 1400, 1500] \<and>
     transition (style (elems (step (TimerFires 0) p') 2)) =
       ''all 0.6s cubic-bezier(0.4, 0, 0.2, 1)'' \<and>
     transition (style (elems (step (TimerFires 3) p') 5)) =
       ''all 0.5s cubic-bezier(0.4, 0, 0.2, 1)''"
proof -
  have h0: "enabled sample_page"
    and h1: "linkCards sample_page = Some [2, 3, 4]"
    and h2: "socialIcons sample_page = Some [5, 6]"
    by (simp_all add: sample_page_def)
  from hidden_at_once_transition_at_reveal [OF h0 h1 h2] obtain p'
    where run: "init sample_page = Inr p'"
      and op: "\<forall>e \<in> set [2, 3, 4] \<union> set [5, 6]. opacity (style (elems p' e)) = ''0''"
      and tc: "\<forall>e \<in> set [2, 3, 4] - set [5, 6]. transform (style (elems p' e)) = ''translateY(30px)''"
      and ti: "\<forall>e \<in> set [5, 6]. transform (style (elems p' e)) = ''translateY(20px) scale(0.8)''"
      and tr: "\<forall>e. transition (style (elems p' e)) = transition (style (elems sample_page e))"
      and tm: "timers p' = timers sample_page
       @ map (\<lambda>i. (800 + i * 150, RevealCard ([2, 3, 4] ! i))) [0..<length [2, 3, 4::nat]]
       @ map (\<lambda>i. (1400 + i * 100, RevealIcon ([5, 6] ! i))) [0..<length [5, 6::nat]]"
      and atc: "\<forall>q k e. k < length (timers q) \<and> snd (timers q ! k) = RevealCard e \<longrightarrow>
       transition (style (elems (step (TimerFires k) q) e)) =
         ''all 0.6s cubic-bezier(0.4, 0, 0.2, 1)''"
      and ati: "\<forall>q k e. k < length (timers q) \<and> snd (timers q ! k) = RevealIcon e \<longrightarrow>
       transition (style (elems (step (TimerFires k) q) e)) =
         ''all 0.5s cubic-bezier(0.4, 0, 0.2, 1)''"
    by (elim exE conjE)
  have tl: "timers p' = [(800, RevealCard 2), (950, RevealCard 3), (1100, RevealCard 4),
                  (1400, RevealIcon 5), (1500, RevealIcon 6)]"
    unfolding tm by (simp add: sample_page_def upt_conv_Cons)
  have "0 < length (timers p') \<and> snd (timers p' ! 0) = RevealCard 2"
    by (simp add: tl)
  with atc have f: "transition (style (elems (step (TimerFires 0) p') 2)) =
       ''all 0.6s cubic-bezier(0.4, 0, 0.2, 1)''"
    by (elim allE impE)
  have "3 < length (timers p') \<and> snd (timers p' ! 3) = RevealIcon 5"
    by (simp add: tl)
  with ati have g: "transition (style (elems (step (TimerFires 3) p') 5)) =
       ''all 0.5s cubic-bezier(0.4, 0, 0.2, 1)''"
    by (elim allE impE)
  have a: "opacity (style (elems p' 2)) = ''0''" "opacity (style (elems p' 5)) = ''0''"
    using op by simp_all
  have b: "transform (style (elems p' 2)) = ''translateY(30px)''"
    using tc by simp
  have c: "transform (style (elems p' 5)) = ''translateY(20px) scale(0.8)''"
    using ti by simp
  have d: "transition (style (elems p' 2)) = []" "transition (style (elems p' 5)) = []"
    using tr by (simp_all add: sample_page_def sample_elems_def blank_style_def)
  have e: "map fst (timers p') = [800, 950, 1100, 1400, 1500]"
    unfolding tm by (simp add: sample_page_def upt_conv_Cons)
  from run a b c d e f g show ?thesis by (intro exI conjI)
qed

section \<open>Animations disabled\<close>

text \<open>
  Claim C2. With animations disabled, \<^verbatim>\<open>init\<close> on the freshly cached page returns
  normally; the cached card and icon lists are the elements of class \<open>link-card\<close> and
  \<open>social-icon\<close>; each of them then has opacity \<open>1\<close>, transform
  \<open>translateY(0)\<close> and animation \<open>none\<close>, with its transition property untouched; and
  the pending timeouts, the pending animation frames and the observed targets are what
  they were: nothing is armed. (Between caching and \<^verbatim>\<open>init\<close>, \<^verbatim>\<open>initializeApp\<close>
  only registers listeners and writes to the console, so \<^verbatim>\<open>init\<close> sees the page as
  cached.)
\<close>

theorem disabled_shows_all_targets_at_once:
  assumes "\<not> enabled p"
  shows "\<exists>p'. init (cacheDOMElements p) = Inr p' \<and>
     linkCards p' = Some (querySelectorAll p [''link-card'']) \<and>
     socialIcons p' = Some (querySelectorAll p [''social-icon'']) \<and>
     (\<forall>e \<in> set (querySelectorAll p [''link-card'']) \<union> set (querySelectorAll p [''social-icon'']).
        opacity (style (elems p' e)) = ''1'' \<and>
        transform (style (elems p' e)) = ''translateY(0)'' \<and>
        animation (style (elems p' e)) = ''none'' \<and>
        transition (style (elems p' e)) = transition (style (elems p e))) \<and>
     timers p' = timers p \<and> frames p' = frames p \<and> observed p' = observed p"
proof -
  let ?c = "cacheDOMElements p"
  let ?all = "querySelectorAll p
                [''link-card'', ''social-icon'', ''hero-section'', ''social-section'', ''footer'']"
  have dis: "\<not> enabled ?c" using assms by (simp add: cacheDOMElements_fields)
  obtain p' where run: "init ?c = Inr p'"
    and el0: "elems p' = map_on (querySelectorAll ?c
                [''link-card'', ''social-icon'', ''hero-section'', ''social-section'', ''footer''])
                show_element (elems ?c)"
    and t0: "timers p' = timers ?c" and f0: "frames p' = frames ?c"
    and o0: "observed p' = observed ?c"
    and c0: "linkCards p' = linkCards ?c" and i0: "socialIcons p' = socialIcons ?c"
    using dis by (rule init_disabled_result)
  have el: "elems p' = map_on ?all show_element (elems p)"
    by (simp add: el0 querySelectorAll_cached cacheDOMElements_fields)
  have sub: "e \<in> set ?all"
    if "e \<in> set (querySelectorAll p [''link-card'']) \<union> set (querySelectorAll p [''social-icon''])"
    for e
    using that by (auto simp: in_querySelectorAll)
  have shown: "\<forall>e \<in> set (querySelectorAll p [''link-card'']) \<union> set (querySelectorAll p [''social-icon'']).
        opacity (style (elems p' e)) = ''1'' \<and>
        transform (style (elems p' e)) = ''translateY(0)'' \<and>
        animation (style (elems p' e)) = ''none'' \<and>
        transition (style (elems p' e)) = transition (style (elems p e))"
  proof
    fix e
    assume "e \<in> set (querySelectorAll p [''link-card'']) \<union> set (querySelectorAll p [''social-icon''])"
    then have "e \<in> set ?all" by (rule sub)
    then have "elems p' e = show_element (elems p e)" by (simp add: el map_on_in)
    then show "opacity (style (elems p' e)) = ''1'' \<and>
        transform (style (elems p' e)) = ''translateY(0)'' \<and>
        animation (style (elems p' e)) = ''none'' \<and>
        transition (style (elems p' e)) = transition (style (elems p e))"
      by (simp add: show_element_def)
  qed
  have c: "linkCards p' = Some (querySelectorAll p [''link-card''])"
    and i: "socialIcons p' = Some (querySelectorAll p [''social-icon''])"
    and t: "timers p' = timers p" and f: "frames p' = frames p" and ob: "observed p' = observed p"
    by (simp_all add: c0 i0 t0 f0 o0 cacheDOMElements_fields)
  from run c i shown t f ob show ?thesis by (intro exI conjI)
qed

theorem disabled_shows_all_targets_at_once_witness:
  "\<exists>p'. init (cacheDOMElements (sample_page\<lparr>enabled := False\<rparr>)) = Inr p' \<and>
     linkCards p' = Some [2, 3, 4] \<and> socialIcons p' = Some [5, 6] \<and>
     map (\<lambda>e. opacity (style (elems p' e))) [2, 3, 4, 5, 6] = [''1'', ''1'', ''1'', ''1'', ''1''] \<and>
     transform (style (elems p' 2)) = ''translateY(0)'' \<and>
     animation (style (elems p' 5)) = ''none'' \<and>
     timers p' = []"
proof -
  let ?q = "sample_page\<lparr>enabled := False\<rparr>"
  have h: "\<not> enabled ?q" by simp
  have qc: "querySelectorAll ?q [''link-card''] = [2, 3, 4]"
    by (simp add: querySelectorAll_def matches_def sample_page_def sample_elems_def)
  have qi: "querySelectorAll ?q [''social-icon''] = [5, 6]"
    by (simp add: querySelectorAll_def matches_def sample_page_def sample_elems_def)
  from disabled_shows_all_targets_at_once [OF h] obtain p'
    where run: "init (cacheDOMElements ?q) = Inr p'"
      and c: "linkCards p' = Some (querySelectorAll ?q [''link-card''])"
      and i: "socialIcons p' = Some (querySelectorAll ?q [''social-icon''])"
      and shown: "\<forall>e \<in> set (querySelectorAll ?q [''link-card'']) \<union> set (querySelectorAll ?q [''social-icon'']).
        opacity (style (elems p' e)) = ''1'' \<and>
        transform (style (elems p' e)) = ''translateY(0)'' \<and>
        animation (style (elems p' e)) = ''none'' \<and>
        transition (style (elems p' e)) = transition (style (elems ?q e))"
      and t: "timers p' = timers ?q"
    by (elim exE conjE)
  have c': "linkCards p' = Some [2, 3, 4]" using c by (simp only: qc)
  have i': "socialIcons p' = Some [5, 6]" using i by (simp only: qi)
  have shown': "\<forall>e \<in> set [2, 3, 4] \<union> set [5, 6].
        opacity (style (elems p' e)) = ''1'' \<and>
        transform (style (elems p' e)) = ''translateY(0)'' \<and>
        animation (style (elems p' e)) = ''none'' \<and>
        transition (style (elems p' e)) = transition (style (elems ?q e))"
    using shown by (simp only: qc qi)
  have o: "map (\<lambda>e. opacity (style (elems p' e))) [2, 3, 4, 5, 6] = [''1'', ''1'', ''1'', ''1'', ''1'']"
    using shown' by simp
  have tf: "transform (style (elems p' 2)) = ''translateY(0)''"
    using shown' by simp
  have an: "animation (style (elems p' 5)) = ''none''"
    using shown' by simp
  have t': "timers p' = []" using t by (simp add: sample_page_def)
  from run c' i' o tf an t' show ?thesis by (intro exI conjI)
qed

section \<open>No operation throws\<close>

text \<open>
  Claim C8. On every page, whatever the cached lists hold and whether or not they and the
  footer are \<^verbatim>\<open>null\<close>, \<^verbatim>\<open>init\<close> and each of the functions it calls returns
  normally, although reading a node list or observing a target throws on \<^verbatim>\<open>null\<close>.
  A card list, icon list or footer that is \<^verbatim>\<open>null\<close> is skipped: the function guarding
  it returns the page unchanged.
\<close>

theorem sequencer_operations_total:
  "(\<exists>p'. init p = Inr p') \<and>
   (\<exists>p'. setupPageLoadAnimations p = Inr p') \<and>
   (\<exists>p'. setupHoverEffects p = Inr p') \<and>
   (\<exists>p'. setupScrollAnimations p = Inr p') \<and>
   (\<exists>p'. disableAnimations p = Inr p') \<and>
   (linkCards p = None \<longrightarrow> animateLinkCards p = Inr p) \<and>
   (socialIcons p = None \<longrightarrow> animateSocialIcons p = Inr p) \<and>
   (footer p = None \<longrightarrow> setupScrollAnimations p = Inr p)"
proof -
  have i: "\<exists>p'. init p = Inr p'"
  proof (cases "enabled p")
    case True
    then obtain p' where "init p = Inr p'" by (rule init_enabled_result)
    then show ?thesis ..
  next
    case False
    then obtain p' where "init p = Inr p'" by (rule init_disabled_result)
    then show ?thesis ..
  qed
  have l: "\<exists>p'. setupPageLoadAnimations p = Inr p'"
    by (simp add: setupPageLoadAnimations_eq)
  have h: "\<exists>p'. setupHoverEffects p = Inr p'"
  proof -
    obtain p' where "setupHoverEffects p = Inr p'" by (rule setupHoverEffects_result)
    then show ?thesis ..
  qed
  have s: "\<exists>p'. setupScrollAnimations p = Inr p'"
  proof -
    obtain p' where "setupScrollAnimations p = Inr p'" by (rule setupScrollAnimations_result)
    then show ?thesis ..
  qed
  have d: "\<exists>p'. disableAnimations p = Inr p'"
    by (simp add: disableAnimations_eq)
  have nc: "linkCards p = None \<longrightarrow> animateLinkCards p = Inr p"
    by (simp add: animateLinkCards_def truthy_def)
  have ni: "socialIcons p = None \<longrightarrow> animateSocialIcons p = Inr p"
    by (simp add: animateSocialIcons_def truthy_def)
  have nf: "footer p = None \<longrightarrow> setupScrollAnimations p = Inr p"
    by (simp add: setupScrollAnimations_def truthy_def)
  from i l h s d nc ni nf show ?thesis by (intro conjI)
qed

theorem sequencer_operations_total_witness:
  "animateLinkCards (sample_page\<lparr>linkCards := None, socialIcons := None, footer := None\<rparr>)
     = Inr (sample_page\<lparr>linkCards := None, socialIcons := None, footer := None\<rparr>) \<and>
   animateSocialIcons (sample_page\<lparr>linkCards := None, socialIcons := None, footer := None\<rparr>)
     = Inr (sample_page\<lparr>linkCards := None, socialIcons := None, footer := None\<rparr>) \<and>
   setupScrollAnimations (sample_page\<lparr>linkCards := None, socialIcons := None, footer := None\<rparr>)
     = Inr (sample_page\<lparr>linkCards := None, socialIcons := None, footer := None\<rparr>) \<and>
   nodeList_forEach None cardInitial sample_page = Inl TypeError \<and>
   observe None sample_page = Inl TypeError"
  using sequencer_operations_total
    [of "sample_page\<lparr>linkCards := None, socialIcons := None, footer := None\<rparr>"]
  by (simp add: nodeList_forEach_def observe_def)

section \<open>The watched element\<close>

lemma observerEntry_marked:
  assumes "''animated'' \<in> set (classList (elems p f))"
  shows "elems (observerEntry en p) f = elems p f"
  using assms by (cases "target en = f") (simp_all add: observerEntry_def)

lemma observerCallback_marked:
  assumes "''animated'' \<in> set (classList (elems p f))"
  shows "elems (observerCallback ens p) f = elems p f"
  using assms
proof (induction ens arbitrary: p)
  case Nil
  show ?case by simp
next
  case (Cons en ens)
  have same: "elems (observerEntry en p) f = elems p f"
    using Cons.prems by (rule observerEntry_marked)
  with Cons.prems have "''animated'' \<in> set (classList (elems (observerEntry en p) f))"
    by simp
  then have "elems (observerCallback ens (observerEntry en p)) f = elems (observerEntry en p) f"
    by (rule Cons.IH)
  with same show ?case by simp
qed

lemma observerCallback_noop:
  assumes "''animated'' \<in> set (classList (elems p f))"
    and "\<forall>en \<in> set ens. target en = f"
  shows "observerCallback ens p = p"
  using assms(2)
proof (induction ens)
  case Nil
  show ?case by simp
next
  case (Cons en ens)
  then have "target en = f" by simp
  with assms(1) have "observerEntry en p = p" by (simp add: observerEntry_def)
  with Cons show ?case by simp
qed

lemma intersects_seq_marked:
  assumes "''animated'' \<in> set (classList (elems p f))"
  shows "elems (run_events (map Intersects enss) p) f = elems p f"
  using assms
proof (induction enss arbitrary: p)
  case Nil
  show ?case by simp
next
  case (Cons ens enss)
  let ?q = "step (Intersects ens) p"
  have same: "elems ?q f = elems p f"
    using Cons.prems by (simp add: observerCallback_marked)
  with Cons.prems have "''animated'' \<in> set (classList (elems ?q f))" by simp
  then have "elems (run_events (map Intersects enss) ?q) f = elems ?q f" by (rule Cons.IH)
  with same show ?case by simp
qed

lemma marked_noop_step:
  assumes "observed q = [f]" and "''animated'' \<in> set (classList (elems q f))"
  shows "step (Intersects ens) q = q"
proof -
  have "\<forall>en \<in> set (filter (\<lambda>en. target en \<in> set (observed q)) ens). target en = f"
    by (simp add: assms(1))
  with assms(2) have "observerCallback (filter (\<lambda>en. target en \<in> set (observed q)) ens) q = q"
    by (rule observerCallback_noop)
  then show ?thesis by simp
qed

lemma first_intersection:
  assumes "f \<in> set (observed p)" and "''animated'' \<notin> set (classList (elems p f))"
  shows "step (Intersects [\<lparr>isIntersecting = True, target = f\<rparr>]) p =
     p\<lparr>elems := (elems p)(f := (elems p f)
        \<lparr>classList := classList_add (classList (elems p f)) [''fade-in'', ''animated'']\<rparr>)\<rparr>"
  using assms by (simp add: observerEntry_def)

text \<open>
  Claim C3. Let the observer watch the single element \<open>f\<close>, not yet marked
  \<open>animated\<close>. The first callback with an intersecting entry for \<open>f\<close> appends
  \<open>fade-in\<close> (unless present) and \<open>animated\<close> to the class list of \<open>f\<close> and changes
  nothing else of it, so that the marker occurs exactly once. Every later observer
  callback, whatever its entries, returns the page as it is, and after any sequence of
  later callbacks the element is still as the first one left it. A callback none of whose
  entries intersects changes nothing either.
\<close>

theorem watched_trigger_idempotent:
  assumes "observed p = [f]" and "''animated'' \<notin> set (classList (elems p f))"
  shows
    "elems (step (Intersects [\<lparr>isIntersecting = True, target = f\<rparr>]) p) f =
       (elems p f)\<lparr>classList :=
          (if ''fade-in'' \<in> set (classList (elems p f)) then classList (elems p f)
           else classList (elems p f) @ [''fade-in'']) @ [''animated'']\<rparr> \<and>
     length (filter (\<lambda>c. c = ''animated'')
        (classList (elems (step (Intersects [\<lparr>isIntersecting = True, target = f\<rparr>]) p) f))) = 1 \<and>
     (\<forall>ens. step (Intersects ens) (step (Intersects [\<lparr>isIntersecting = True, target = f\<rparr>]) p) =
        step (Intersects [\<lparr>isIntersecting = True, target = f\<rparr>]) p) \<and>
     (\<forall>enss. elems (run_events (map Intersects enss)
                 (step (Intersects [\<lparr>isIntersecting = True, target = f\<rparr>]) p)) f =
        elems (step (Intersects [\<lparr>isIntersecting = True, target = f\<rparr>]) p) f) \<and>
     (\<forall>ens. (\<forall>en \<in> set ens. \<not> isIntersecting en) \<longrightarrow> step (Intersects ens) p = p)"
proof -
  let ?first = "step (Intersects [\<lparr>isIntersecting = True, target = f\<rparr>]) p"
  let ?cl = "classList (elems p f)"
  have fo: "f \<in> set (observed p)" by (simp add: assms(1))
  have first: "?first = p\<lparr>elems := (elems p)(f := (elems p f)
        \<lparr>classList := classList_add ?cl [''fade-in'', ''animated'']\<rparr>)\<rparr>"
    using fo assms(2) by (rule first_intersection)
  have a: "elems ?first f = (elems p f)\<lparr>classList :=
          (if ''fade-in'' \<in> set ?cl then ?cl else ?cl @ [''fade-in'']) @ [''animated'']\<rparr>"
    unfolding first using assms(2) by simp
  have b: "length (filter (\<lambda>c. c = ''animated'') (classList (elems ?first f))) = 1"
  proof -
    have "filter (\<lambda>c. c = ''animated'') ?cl = []"
      using assms(2) by (auto simp: filter_empty_conv)
    then show ?thesis unfolding a by simp
  qed
  have marked: "''animated'' \<in> set (classList (elems ?first f))"
    unfolding a by simp
  have obs: "observed ?first = [f]"
    unfolding first by (simp add: assms(1))
  have c: "\<forall>ens. step (Intersects ens) ?first = ?first"
  proof
    fix ens
    from obs marked show "step (Intersects ens) ?first = ?first" by (rule marked_noop_step)
  qed
  have d: "\<forall>enss. elems (run_events (map Intersects enss) ?first) f = elems ?first f"
  proof
    fix enss
    from marked show "elems (run_events (map Intersects enss) ?first) f = elems ?first f"
      by (rule intersects_seq_marked)
  qed
  have e: "\<forall>ens. (\<forall>en \<in> set ens. \<not> isIntersecting en) \<longrightarrow> step (Intersects ens) p = p"
  proof (intro allI impI)
    fix ens :: "entry list"
    assume "\<forall>en \<in> set ens. \<not> isIntersecting en"
    then have "observerCallback (filter (\<lambda>en. target en \<in> set (observed p)) ens) p = p"
    proof (induction ens)
      case Nil
      show ?case by simp
    next
      case (Cons en ens)
      then have "observerEntry en p = p" by (simp add: observerEntry_def)
      with Cons show ?case by simp
    qed
    then show "step (Intersects ens) p = p" by simp
  qed
  from a b c d e show ?thesis by (intro conjI)
qed

theorem watched_trigger_idempotent_witness:
  "classList (elems (step (Intersects [\<lparr>isIntersecting = True, target = 7\<rparr>])
       (sample_page\<lparr>observed := [7]\<rparr>)) 7) = [''footer'', ''fade-in'', ''animated''] \<and>
   step (Intersects [\<lparr>isIntersecting = True, target = 7\<rparr>])
     (step (Intersects [\<lparr>isIntersecting = True, target = 7\<rparr>]) (sample_page\<lparr>observed := [7]\<rparr>))
     = step (Intersects [\<lparr>isIntersecting = True, target = 7\<rparr>]) (sample_page\<lparr>observed := [7]\<rparr>)"
proof -
  let ?q = "sample_page\<lparr>observed := [7]\<rparr>"
  let ?first = "step (Intersects [\<lparr>isIntersecting = True, target = 7\<rparr>]) ?q"
  have h1: "observed ?q = [7]" by simp
  have cl: "classList (elems ?q 7) = [''footer'']"
    by (simp add: sample_page_def sample_elems_def)
  have h2: "''animated'' \<notin> set (classList (elems ?q 7))"
    unfolding cl by simp
  note main = watched_trigger_idempotent [OF h1 h2]
  from main have a: "elems ?first 7 = (elems ?q 7)\<lparr>classList :=
          (if ''fade-in'' \<in> set (classList (elems ?q 7)) then classList (elems ?q 7)
           else classList (elems ?q 7) @ [''fade-in'']) @ [''animated'']\<rparr>"
    by (rule conjunct1)
  from main have c: "\<forall>ens. step (Intersects ens) ?first = ?first"
    by (elim conjE)
  have "classList (elems ?first 7) = [''footer'', ''fade-in'', ''animated'']"
    unfolding a cl by simp
  moreover from c have "step (Intersects [\<lparr>isIntersecting = True, target = 7\<rparr>]) ?first = ?first"
    by (rule spec)
  ultimately show ?thesis by (intro conjI)
qed

section \<open>Image fallback\<close>

text \<open>
  Claim C10. \<^verbatim>\<open>handleImageError\<close> on an image of class \<open>profile-image\<close> replaces its
  source and alternative text by the fallback values and leaves every other element as it
  is; on an image without that class it returns the page unchanged.
\<close>

theorem image_fallback_only_for_profile_image:
  "(''profile-image'' \<in> set (classList (elems p img)) \<longrightarrow>
      elems (handleImageError img p) img =
        (elems p img)
          \<lparr>src := ''https://ui-avatars.com/api/?name=Yaswanth+Reddy+Arumulla&size=400&background=4F46E5&color=ffffff&font-size=0.33&bold=true&format=svg'',
           alt := ''Yaswanth Reddy Arumulla - DevOps Engineer (Generated Avatar)''\<rparr> \<and>
      (\<forall>e. e \<noteq> img \<longrightarrow> elems (handleImageError img p) e = elems p e)) \<and>
   (''profile-image'' \<notin> set (classList (elems p img)) \<longrightarrow> handleImageError img p = p)"
  by (simp add: handleImageError_def console_log_def)

theorem image_fallback_only_for_profile_image_witness:
  "src (elems (handleImageError 1 sample_page) 1) =
     ''https://ui-avatars.com/api/?name=Yaswanth+Reddy+Arumulla&size=400&background=4F46E5&color=ffffff&font-size=0.33&bold=true&format=svg'' \<and>
   alt (elems (handleImageError 1 sample_page) 1) =
     ''Yaswanth Reddy Arumulla - DevOps Engineer (Generated Avatar)'' \<and>
   handleImageError 2 sample_page = sample_page"
proof -
  have c1: "classList (elems sample_page 1) = [''profile-image'']"
    and c2: "classList (elems sample_page 2) = [''link-card'']"
    by (simp_all add: sample_page_def sample_elems_def)
  have h1: "''profile-image'' \<in> set (classList (elems sample_page 1))"
    unfolding c1 by simp
  have h2: "''profile-image'' \<notin> set (classList (elems sample_page 2))"
    unfolding c2 by simp
  from image_fallback_only_for_profile_image [of sample_page 1] h1
  have "elems (handleImageError 1 sample_page) 1 =
        (elems sample_page 1)
          \<lparr>src := ''https://ui-avatars.com/api/?name=Yaswanth+Reddy+Arumulla&size=400&background=4F46E5&color=ffffff&font-size=0.33&bold=true&format=svg'',
           alt := ''Yaswanth Reddy Arumulla - DevOps Engineer (Generated Avatar)''\<rparr>"
    by (simp only: simp_thms)
  then have a: "src (elems (handleImageError 1 sample_page) 1) =
     ''https://ui-avatars.com/api/?name=Yaswanth+Reddy+Arumulla&size=400&background=4F46E5&color=ffffff&font-size=0.33&bold=true&format=svg''"
    and b: "alt (elems (handleImageError 1 sample_page) 1) =
     ''Yaswanth Reddy Arumulla - DevOps Engineer (Generated Avatar)''"
    by simp_all
  from image_fallback_only_for_profile_image [of sample_page 2] h2
  have c: "handleImageError 2 sample_page = sample_page"
    by (simp only: simp_thms)
  from a b c show ?thesis by (intro conjI)
qed

section \<open>One reveal per target\<close>

lemma run_events_append: "run_events (xs @ ys) p = run_events ys (run_events xs p)"
  by (induction xs arbitrary: p) simp_all

lemma timer_step_own:
  assumes "k < length (timers q)" and "reveals e (timers q ! k)"
  shows "opacity (style (elems (step (TimerFires k) q) e)) = ''1''"
proof (cases "snd (timers q ! k)")
  case (RevealCard x)
  with assms have "x = e" by (simp add: reveals_def)
  with assms(1) RevealCard show ?thesis by (simp add: update_style_def)
next
  case (RevealIcon x)
  with assms have "x = e" by (simp add: reveals_def)
  with assms(1) RevealIcon show ?thesis by (simp add: update_style_def)
qed

lemma timer_step_timers:
  assumes "k < length (timers q)"
  shows "timers (step (TimerFires k) q) = take k (timers q) @ drop (Suc k) (timers q)"
  using assms by (cases "snd (timers q ! k)") (simp_all add: update_style_def)

lemma step_opacity:
  "opacity (style (elems (step ev q) e)) = opacity (style (elems q e)) \<or>
   opacity (style (elems (step ev q) e)) = ''1''"
proof (cases "opacity (style (elems (step ev q) e)) = opacity (style (elems q e))")
  case True
  then show ?thesis by simp
next
  case False
  then have "\<exists>k<length (timers q). ev = TimerFires k \<and> reveals e (timers q ! k)"
    by (intro style_change_needs_own_timer) simp
  then obtain k where "k < length (timers q)" "ev = TimerFires k" "reveals e (timers q ! k)"
    by (elim exE conjE)
  then show ?thesis by (simp only: timer_step_own simp_thms)
qed

lemma visible_stays:
  assumes "opacity (style (elems q e)) = ''1''"
  shows "opacity (style (elems (run_events evs q) e)) = ''1''"
  using assms
proof (induction evs arbitrary: q)
  case Nil
  then show ?case by simp
next
  case (Cons ev evs)
  from step_opacity [of ev q e] Cons.prems
  have "opacity (style (elems (step ev q) e)) = ''1''" by (elim disjE) simp_all
  then have "opacity (style (elems (run_events evs (step ev q)) e)) = ''1''" by (rule Cons.IH)
  then show ?case by simp
qed

lemma hidden_or_visible:
  assumes "opacity (style (elems q e)) = ''0'' \<or> opacity (style (elems q e)) = ''1''"
  shows "opacity (style (elems (run_events evs q) e)) = ''0'' \<or>
         opacity (style (elems (run_events evs q) e)) = ''1''"
  using assms
proof (induction evs arbitrary: q)
  case Nil
  then show ?case by simp
next
  case (Cons ev evs)
  from step_opacity [of ev q e] Cons.prems
  have "opacity (style (elems (step ev q) e)) = ''0'' \<or>
        opacity (style (elems (step ev q) e)) = ''1''"
    by (elim disjE) simp_all
  then have "opacity (style (elems (run_events evs (step ev q)) e)) = ''0'' \<or>
         opacity (style (elems (run_events evs (step ev q)) e)) = ''1''"
    by (rule Cons.IH)
  then show ?case by simp
qed

lemma filter_remove_nth:
  assumes "k < length xs"
  shows "length (filter P (take k xs @ drop (Suc k) xs)) =
           length (filter P xs) - (if P (xs ! k) then 1 else 0)"
proof -
  have "xs = take k xs @ xs ! k # drop (Suc k) xs"
    using assms by (rule id_take_nth_drop)
  then have "length (filter P xs) =
      length (filter P (take k xs @ xs ! k # drop (Suc k) xs))" by simp
  then show ?thesis by simp
qed

lemma pending_ok_step:
  assumes "pending_ok e q"
  shows "pending_ok e (step ev q)"
proof (cases "\<exists>k<length (timers q). ev = TimerFires k")
  case False
  have "timers (step ev q) = timers q \<and>
        opacity (style (elems (step ev q) e)) = opacity (style (elems q e))"
  proof (cases "\<exists>k. ev = TimerFires k")
    case True
    with False show ?thesis by auto
  next
    case False
    then have "keeps_reveal_state q (step ev q)" by (intro keeps_other_steps) simp
    then show ?thesis by (simp add: keeps_reveal_state_def)
  qed
  with assms show ?thesis by (simp add: pending_ok_def)
next
  case True
  then obtain k where k: "k < length (timers q)" and ev: "ev = TimerFires k"
    by (elim exE conjE)
  have tm: "timers (step ev q) = take k (timers q) @ drop (Suc k) (timers q)"
    unfolding ev using k by (rule timer_step_timers)
  have cnt: "length (filter (reveals e) (timers (step ev q))) =
      length (filter (reveals e) (timers q)) - (if reveals e (timers q ! k) then 1 else 0)"
    unfolding tm using k by (rule filter_remove_nth)
  show ?thesis
  proof (cases "reveals e (timers q ! k)")
    case own: True
    have vis: "opacity (style (elems (step ev q) e)) = ''1''"
      unfolding ev using k own by (rule timer_step_own)
    from k own have "timers q ! k \<in> set (filter (reveals e) (timers q))" by simp
    then have "0 < length (filter (reveals e) (timers q))"
      by (simp only: length_pos_if_in_set)
    with assms have "length (filter (reveals e) (timers q)) = 1"
      by (simp add: pending_ok_def split: if_splits)
    with cnt own vis show ?thesis by (simp add: pending_ok_def)
  next
    case other: False
    have "style (elems (step ev q) e) = style (elems q e)"
      unfolding ev using k other by (rule timer_step_other)
    with cnt other assms show ?thesis by (simp add: pending_ok_def)
  qed
qed

lemma pending_ok_run:
  assumes "pending_ok e q"
  shows "pending_ok e (run_events evs q)"
  using assms
proof (induction evs arbitrary: q)
  case Nil
  then show ?case by simp
next
  case (Cons ev evs)
  from Cons.prems have "pending_ok e (step ev q)" by (rule pending_ok_step)
  then have "pending_ok e (run_events evs (step ev q))" by (rule Cons.IH)
  then show ?case by simp
qed

lemma count_card_timers:
  "length (filter (reveals e) (card_timers i xs)) = length (filter (\<lambda>x. x = e) xs)"
  by (induction xs arbitrary: i) (simp_all add: card_timers_def reveals_def)

lemma count_icon_timers:
  "length (filter (reveals e) (icon_timers i xs)) = length (filter (\<lambda>x. x = e) xs)"
  by (induction xs arbitrary: i) (simp_all add: icon_timers_def reveals_def)

lemma count_distinct:
  assumes "distinct xs"
  shows "length (filter (\<lambda>x. x = e) xs) = (if e \<in> set xs then 1 else 0)"
  using assms by (induction xs) auto

lemma reveals_unfold: "reveals e = (\<lambda>t. snd t = RevealCard e \<or> snd t = RevealIcon e)"
  by (simp add: reveals_def fun_eq_iff)

text \<open>
  An element that is listed both as a card and as an icon gets one reveal per group, so
  the count of pending reveals below is stated for lists without duplicates that share
  no element.
\<close>

lemma shared_element_two_reveals:
  "\<exists>p0. init (sample_page\<lparr>linkCards := Some [2], socialIcons := Some [2]\<rparr>) = Inr p0 \<and>
     timers p0 = [(800, RevealCard 2), (1400, RevealIcon 2)]"
proof -
  let ?q = "sample_page\<lparr>linkCards := Some [2], socialIcons := Some [2]\<rparr>"
  have "enabled ?q" by (simp add: sample_page_def)
  then obtain p0 where run: "init ?q = Inr p0"
    and t0: "timers p0 = timers ?q @ card_timers 0 (nodeList_items (linkCards ?q))
                        @ icon_timers 0 (nodeList_items (socialIcons ?q))"
    by (rule init_enabled_result)
  from t0 have "timers p0 = [(800, RevealCard 2), (1400, RevealIcon 2)]"
    by (simp add: sample_page_def nodeList_items_def card_timers_def icon_timers_def)
  with run show ?thesis by (intro exI conjI)
qed

text \<open>
  Claim C7. The visibility of a target is its inline opacity: \<open>0\<close> hidden, \<open>1\<close>
  visible. With animations enabled and \<open>e\<close> a card or an icon, \<^verbatim>\<open>init\<close> returns
  with \<open>e\<close> hidden, and over every sequence of later events (timeouts, animation frames,
  mouse and focus events, observer callbacks):
  \<^item> once \<open>e\<close> is visible it stays visible;
  \<^item> an event changes the opacity of \<open>e\<close> only from \<open>0\<close> to \<open>1\<close>, and only when it is
    the firing of a pending reveal that captured \<open>e\<close>; the hover listeners assign
    transforms and animation properties, never the opacity;
  \<^item> when the card and icon lists have no duplicates and share no element, and no
    reveal of \<open>e\<close> was pending before \<^verbatim>\<open>init\<close>, exactly one reveal of \<open>e\<close> is pending
    as long as \<open>e\<close> is hidden and none once it is visible: the one write that makes
    \<open>e\<close> visible is made by the one timeout armed for it, which is used up by firing.
\<close>

theorem revealed_once_by_own_timer:
  assumes "enabled p" and "linkCards p = Some cards" and "socialIcons p = Some icons"
    and "e \<in> set cards \<union> set icons"
  shows "\<exists>p0. init p = Inr p0 \<and>
     opacity (style (elems p0 e)) = ''0'' \<and>
     (\<forall>evs evs'. opacity (style (elems (run_events evs p0) e)) = ''1'' \<longrightarrow>
        opacity (style (elems (run_events (evs @ evs') p0) e)) = ''1'') \<and>
     (\<forall>evs ev.
        opacity (style (elems (step ev (run_events evs p0)) e)) \<noteq>
          opacity (style (elems (run_events evs p0) e)) \<longrightarrow>
        opacity (style (elems (run_events evs p0) e)) = ''0'' \<and>
        opacity (style (elems (step ev (run_events evs p0)) e)) = ''1'' \<and>
        (\<exists>k<length (timers (run_events evs p0)). ev = TimerFires k \<and>
           (snd (timers (run_events evs p0) ! k) = RevealCard e \<or>
            snd (timers (run_events evs p0) ! k) = RevealIcon e))) \<and>
     (distinct cards \<and> distinct icons \<and> set cards \<inter> set icons = {} \<and>
      (\<forall>t \<in> set (timers p). snd t \<noteq> RevealCard e \<and> snd t \<noteq> RevealIcon e) \<longrightarrow>
      (\<forall>evs.
         length (filter (\<lambda>t. snd t = RevealCard e \<or> snd t = RevealIcon e)
                   (timers (run_events evs p0))) =
           (if opacity (style (elems (run_events evs p0) e)) = ''0'' then 1 else 0)))"
proof -
  obtain p0 where run: "init p = Inr p0"
    and t0: "timers p0 = timers p @ card_timers 0 (nodeList_items (linkCards p))
                        @ icon_timers 0 (nodeList_items (socialIcons p))"
    and st0: "\<forall>e. style (elems p0 e) =
           style (map_on (nodeList_items (socialIcons p)) hide_icon
                       (map_on (nodeList_items (linkCards p)) hide_card (elems p)) e)"
    using assms(1) by (rule init_enabled_result)
  have tm: "timers p0 = timers p @ card_timers 0 cards @ icon_timers 0 icons"
    by (simp add: t0 assms(2,3) nodeList_items_def)
  have st: "style (elems p0 e) = style (map_on icons hide_icon (map_on cards hide_card (elems p)) e)"
    by (simp add: st0 assms(2,3) nodeList_items_def)
  have hidden: "opacity (style (elems p0 e)) = ''0''"
    using assms(4) by (auto simp: st map_on_def hide_card_def hide_icon_def)
  have stays: "\<forall>evs evs'. opacity (style (elems (run_events evs p0) e)) = ''1'' \<longrightarrow>
        opacity (style (elems (run_events (evs @ evs') p0) e)) = ''1''"
  proof (intro allI impI)
    fix evs evs'
    assume "opacity (style (elems (run_events evs p0) e)) = ''1''"
    then have "opacity (style (elems (run_events evs' (run_events evs p0)) e)) = ''1''"
      by (rule visible_stays)
    then show "opacity (style (elems (run_events (evs @ evs') p0) e)) = ''1''"
      by (simp only: run_events_append)
  qed
  have change: "\<forall>evs ev.
        opacity (style (elems (step ev (run_events evs p0)) e)) \<noteq>
          opacity (style (elems (run_events evs p0) e)) \<longrightarrow>
        opacity (style (elems (run_events evs p0) e)) = ''0'' \<and>
        opacity (style (elems (step ev (run_events evs p0)) e)) = ''1'' \<and>
        (\<exists>k<length (timers (run_events evs p0)). ev = TimerFires k \<and>
           (snd (timers (run_events evs p0) ! k) = RevealCard e \<or>
            snd (timers (run_events evs p0) ! k) = RevealIcon e))"
  proof (intro allI impI)
    fix evs ev
    let ?q = "run_events evs p0"
    assume ne: "opacity (style (elems (step ev ?q) e)) \<noteq> opacity (style (elems ?q e))"
    from hidden have "opacity (style (elems ?q e)) = ''0'' \<or> opacity (style (elems ?q e)) = ''1''"
      by (intro hidden_or_visible) simp
    moreover from step_opacity [of ev ?q e] ne
    have one: "opacity (style (elems (step ev ?q) e)) = ''1''" by simp
    ultimately have zero: "opacity (style (elems ?q e)) = ''0''" using ne by auto
    from ne have "\<exists>k<length (timers ?q). ev = TimerFires k \<and> reveals e (timers ?q ! k)"
      by (intro style_change_needs_own_timer) simp
    then have own: "\<exists>k<length (timers ?q). ev = TimerFires k \<and>
           (snd (timers ?q ! k) = RevealCard e \<or> snd (timers ?q ! k) = RevealIcon e)"
      by (simp only: reveals_def)
    from zero one own
    show "opacity (style (elems ?q e)) = ''0'' \<and>
        opacity (style (elems (step ev ?q) e)) = ''1'' \<and>
        (\<exists>k<length (timers ?q). ev = TimerFires k \<and>
           (snd (timers ?q ! k) = RevealCard e \<or> snd (timers ?q ! k) = RevealIcon e))"
      by (intro conjI)
  qed
  have single: "distinct cards \<and> distinct icons \<and> set cards \<inter> set icons = {} \<and>
      (\<forall>t \<in> set (timers p). snd t \<noteq> RevealCard e \<and> snd t \<noteq> RevealIcon e) \<longrightarrow>
      (\<forall>evs.
         length (filter (\<lambda>t. snd t = RevealCard e \<or> snd t = RevealIcon e)
                   (timers (run_events evs p0))) =
           (if opacity (style (elems (run_events evs p0) e)) = ''0'' then 1 else 0))"
  proof (intro allI impI)
    fix evs
    assume wf: "distinct cards \<and> distinct icons \<and> set cards \<inter> set icons = {} \<and>
      (\<forall>t \<in> set (timers p). snd t \<noteq> RevealCard e \<and> snd t \<noteq> RevealIcon e)"
    then have none: "filter (reveals e) (timers p) = []"
      by (auto simp: filter_empty_conv reveals_def)
    from wf have dc: "distinct cards" and di: "distinct icons"
      and disj: "set cards \<inter> set icons = {}" by simp_all
    have "length (filter (reveals e) (timers p0)) =
        (if e \<in> set cards then 1 else 0) + (if e \<in> set icons then 1 else 0)"
      by (simp add: tm none count_card_timers count_icon_timers count_distinct [OF dc]
          count_distinct [OF di])
    also have "\<dots> = 1" using assms(4) disj by auto
    finally have "pending_ok e p0" by (simp add: pending_ok_def hidden)
    then have "pending_ok e (run_events evs p0)" by (rule pending_ok_run)
    then show "length (filter (\<lambda>t. snd t = RevealCard e \<or> snd t = RevealIcon e)
                   (timers (run_events evs p0))) =
           (if opacity (style (elems (run_events evs p0) e)) = ''0'' then 1 else 0)"
      by (simp only: pending_ok_def reveals_unfold)
  qed
  from run hidden stays change single show ?thesis by (intro exI conjI)
qed

theorem revealed_once_by_own_timer_witness:
  "\<exists>p0. init sample_page = Inr p0 \<and>
     opacity (style (elems p0 2)) = ''0'' \<and>
     opacity (style (elems (run_events [TimerFires 0] p0) 2)) = ''1'' \<and>
     opacity (style (elems (run_events
        ([TimerFires 0] @ [Dispatch MouseLeave 2, TimerFires 0, Dispatch Focus 2]) p0) 2)) = ''1'' \<and>
     length (filter (\<lambda>t. snd t = RevealCard 2 \<or> snd t = RevealIcon 2) (timers p0)) = 1 \<and>
     length (filter (\<lambda>t. snd t = RevealCard 2 \<or> snd t = RevealIcon 2)
               (timers (run_events [TimerFires 0] p0))) = 0"
proof -
  have h0: "enabled sample_page"
    and h1: "linkCards sample_page = Some [2, 3, 4]"
    and h2: "socialIcons sample_page = Some [5, 6]"
    by (simp_all add: sample_page_def)
  have h3: "2 \<in> set [2, 3, 4] \<union> set [5, 6::nat]" by simp
  have wf: "distinct [2, 3, 4::nat] \<and> distinct [5, 6::nat] \<and> set [2, 3, 4] \<inter> set [5, 6::nat] = {} \<and>
      (\<forall>t \<in> set (timers sample_page). snd t \<noteq> RevealCard 2 \<and> snd t \<noteq> RevealIcon 2)"
    by (simp add: sample_page_def)
  from revealed_once_by_own_timer [OF h0 h1 h2 h3] obtain p0
    where run: "init sample_page = Inr p0"
      and hidden: "opacity (style (elems p0 2)) = ''0''"
      and stays: "\<forall>evs evs'. opacity (style (elems (run_events evs p0) 2)) = ''1'' \<longrightarrow>
        opacity (style (elems (run_events (evs @ evs') p0) 2)) = ''1''"
      and single: "distinct [2, 3, 4::nat] \<and> distinct [5, 6::nat] \<and> set [2, 3, 4] \<inter> set [5, 6::nat] = {} \<and>
      (\<forall>t \<in> set (timers sample_page). snd t \<noteq> RevealCard 2 \<and> snd t \<noteq> RevealIcon 2) \<longrightarrow>
      (\<forall>evs.
         length (filter (\<lambda>t. snd t = RevealCard 2 \<or> snd t = RevealIcon 2)
                   (timers (run_events evs p0))) =
           (if opacity (style (elems (run_events evs p0) 2)) = ''0'' then 1 else 0))"
    by (elim exE conjE)
  from single wf have count: "\<forall>evs.
         length (filter (\<lambda>t. snd t = RevealCard 2 \<or> snd t = RevealIcon 2)
                   (timers (run_events evs p0))) =
           (if opacity (style (elems (run_events evs p0) 2)) = ''0'' then 1 else 0)"
    by (rule mp)
  obtain p1 where run': "init sample_page = Inr p1"
    and t1: "timers p1 = timers sample_page @ card_timers 0 (nodeList_items (linkCards sample_page))
                        @ icon_timers 0 (nodeList_items (socialIcons sample_page))"
    using h0 by (rule init_enabled_result)
  from run run' have "p1 = p0" by simp
  with t1 have tm: "timers p0 = [(800, RevealCard 2), (950, RevealCard 3), (1100, RevealCard 4),
                  (1400, RevealIcon 5), (1500, RevealIcon 6)]"
    by (simp add: sample_page_def nodeList_items_def card_timers_def icon_timers_def)
  have "0 < length (timers p0)" and "reveals 2 (timers p0 ! 0)"
    by (simp_all add: tm reveals_def)
  then have "opacity (style (elems (step (TimerFires 0) p0) 2)) = ''1''"
    by (rule timer_step_own)
  then have fired: "opacity (style (elems (run_events [TimerFires 0] p0) 2)) = ''1''"
    by simp
  from stays fired
  have later: "opacity (style (elems (run_events
        ([TimerFires 0] @ [Dispatch MouseLeave 2, TimerFires 0, Dispatch Focus 2]) p0) 2)) = ''1''"
    by (elim allE impE)
  from count have "length (filter (\<lambda>t. snd t = RevealCard 2 \<or> snd t = RevealIcon 2)
                   (timers (run_events [] p0))) =
           (if opacity (style (elems (run_events [] p0) 2)) = ''0'' then 1 else 0)"
    by (rule spec)
  then have c0: "length (filter (\<lambda>t. snd t = RevealCard 2 \<or> snd t = RevealIcon 2) (timers p0)) = 1"
    by (simp add: hidden)
  from count have "length (filter (\<lambda>t. snd t = RevealCard 2 \<or> snd t = RevealIcon 2)
                   (timers (run_events [TimerFires 0] p0))) =
           (if opacity (style (elems (run_events [TimerFires 0] p0) 2)) = ''0'' then 1 else 0)"
    by (rule spec)
  then have c1: "length (filter (\<lambda>t. snd t = RevealCard 2 \<or> snd t = RevealIcon 2)
               (timers (run_events [TimerFires 0] p0))) = 0"
    by (simp only: fired) simp
  from run hidden fired later c0 c1 show ?thesis by (intro exI conjI)
qed

end
